theory Spec2Isabelle
  imports Main "HOL-Library.AList" "HOL-Library.Word"
begin

section \<open>The HiveCAD release script (\<^verbatim>\<open>release.py\<close>)\<close>

text \<open>
  The script bumps a version number, writes it into two JSON files, commits them and
  pushes a tag. This theory embeds its functions as HOL functions and proves the
  properties its specification states.

  Conventions of the embedding:
  \<^item> a Python \<^verbatim>\<open>str\<close> is a \<^typ>\<open>string\<close>; a \<^typ>\<open>char\<close> stands for the code point of
    the same number, so the strings of the model are the Python strings whose code
    points are below 256;
  \<^item> a Python \<^verbatim>\<open>int\<close> is an \<^typ>\<open>int\<close>;
  \<^item> an exception is a value of \<open>py_error\<close>, and a function that can raise returns
    \<open>py_error + 'a\<close> with \<open>Inl\<close> for the exception;
  \<^item> terminal output (\<^verbatim>\<open>print\<close> and the \<^verbatim>\<open>print_*\<close> helpers) carries no information
    back into the program and is left out; the prompt that \<^verbatim>\<open>input\<close> shows is kept.
\<close>

subsection \<open>Exceptions\<close>

datatype py_error =
    ValueError
  | IndexError
  | AttributeError
  | TypeError
  | EOFError
  | OSError
  | JSONDecodeError

definition and_then :: "py_error + 'a \<Rightarrow> ('a \<Rightarrow> py_error + 'b) \<Rightarrow> py_error + 'b" where
  "and_then r f = (case r of Inl e \<Rightarrow> Inl e | Inr x \<Rightarrow> f x)"

subsection \<open>The string and integer built-ins the script uses\<close>

text \<open>
  \<^verbatim>\<open>str.strip()\<close> removes the white space of \<^verbatim>\<open>str.isspace\<close>: below 256 these are the
  code points 9 to 13, 28 to 32, 133 and 160.
\<close>

definition py_isspace :: "char \<Rightarrow> bool" where
  "py_isspace c = (c \<in> set [CHR 0x09, CHR 0x0A, CHR 0x0B, CHR 0x0C, CHR 0x0D,
                             CHR 0x1C, CHR 0x1D, CHR 0x1E, CHR 0x1F, CHR 0x20,
                             CHR 0x85, CHR 0xA0])"

definition py_strip :: "string \<Rightarrow> string" where
  "py_strip s = rev (dropWhile py_isspace (rev (dropWhile py_isspace s)))"

text \<open>\<^verbatim>\<open>s.lstrip(chars)\<close> removes every leading character that occurs in \<^verbatim>\<open>chars\<close>.\<close>

definition py_lstrip :: "string \<Rightarrow> string \<Rightarrow> string" where
  "py_lstrip chars s = dropWhile (\<lambda>c. c \<in> set chars) s"

text \<open>
  \<^verbatim>\<open>str.lower()\<close> on code points below 256: the letters A to Z and the Latin-1 capitals
  192 to 222 (without the multiplication sign 215) move up by 32.
\<close>

definition py_lower_char :: "char \<Rightarrow> char" where
  "py_lower_char c =
     (let n = (of_char c :: nat)
      in if (65 \<le> n \<and> n \<le> 90) \<or> (192 \<le> n \<and> n \<le> 222 \<and> n \<noteq> 215)
         then char_of (n + 32) else c)"

definition py_lower :: "string \<Rightarrow> string" where
  "py_lower s = map py_lower_char s"

text \<open>
  \<^verbatim>\<open>s.split(sep)\<close> for a separator of one character: the pieces between the
  occurrences of \<^verbatim>\<open>sep\<close>, empty pieces included; never the empty list.
\<close>

fun py_split :: "char \<Rightarrow> string \<Rightarrow> string list" where
  "py_split sep [] = [[]]"
| "py_split sep (c # cs) =
     (if c = sep then [] # py_split sep cs
      else (case py_split sep cs of
              [] \<Rightarrow> [[c]]
            | p # ps \<Rightarrow> (c # p) # ps))"

text \<open>\<^verbatim>\<open>xs[i]\<close> for an index \<^verbatim>\<open>i >= 0\<close>: out of range raises \<^verbatim>\<open>IndexError\<close>.\<close>

definition getitem :: "'a list \<Rightarrow> nat \<Rightarrow> py_error + 'a" where
  "getitem xs i = (if i < length xs then Inr (xs ! i) else Inl IndexError)"

text \<open>
  \<^verbatim>\<open>int(s)\<close> in base 10. White space around the literal is skipped (for \<^verbatim>\<open>int\<close> these
  are the code points 9 to 13, 32, 133 and 160), one sign is allowed, and the digits may
  be grouped by single underscores between digits. Everything else raises
  \<^verbatim>\<open>ValueError\<close>. The interpreter also refuses a literal of more than
  \<^verbatim>\<open>sys.get_int_max_str_digits()\<close> digits (4300 unless configured; since Python 3.11);
  this limit is the parameter \<open>lim\<close> of the model, and 0 switches it off, as in Python.
\<close>

definition int_isspace :: "char \<Rightarrow> bool" where
  "int_isspace c = (c \<in> set [CHR 0x09, CHR 0x0A, CHR 0x0B, CHR 0x0C, CHR 0x0D, CHR 0x20,
                              CHR 0x85, CHR 0xA0])"

definition is_digit :: "char \<Rightarrow> bool" where
  "is_digit c = (c \<in> set ''0123456789'')"

definition digit_val :: "char \<Rightarrow> nat" where
  "digit_val c = of_char c - 48"

text \<open>The scan of the digits; the flag says that the previous character was an underscore.\<close>

fun scan_digits :: "bool \<Rightarrow> string \<Rightarrow> bool" where
  "scan_digits prev_us [] = (\<not> prev_us)"
| "scan_digits prev_us (c # cs) =
     (if c = CHR ''_'' then \<not> prev_us \<and> scan_digits True cs
      else is_digit c \<and> scan_digits False cs)"

definition int_literal :: "string \<Rightarrow> bool" where
  "int_literal s = (case s of [] \<Rightarrow> False | c # cs \<Rightarrow> c \<noteq> CHR ''_'' \<and> scan_digits False s)"

definition digits_value :: "string \<Rightarrow> nat" where
  "digits_value ds = foldl (\<lambda>acc c. 10 * acc + digit_val c) 0 ds"

definition exceeds_limit :: "nat \<Rightarrow> nat \<Rightarrow> bool" where
  "exceeds_limit lim n = (0 < lim \<and> lim < n)"

definition py_int :: "nat \<Rightarrow> string \<Rightarrow> py_error + int" where
  "py_int lim s =
     (let s1 = dropWhile int_isspace s;
          (negative, s2) = (case s1 of
                              [] \<Rightarrow> (False, s1)
                            | c # cs \<Rightarrow> if c = CHR ''-'' then (True, cs)
                                       else if c = CHR ''+'' then (False, cs)
                                       else (False, s1));
          s3 = rev (dropWhile int_isspace (rev s2));
          ds = filter (\<lambda>c. c \<noteq> CHR ''_'') s3
      in if \<not> int_literal s3 then Inl ValueError
         else if exceeds_limit lim (length ds) then Inl ValueError
         else Inr (if negative then - int (digits_value ds) else int (digits_value ds)))"

text \<open>
  \<^verbatim>\<open>str(n)\<close>, which is also what an f-string does with an \<^verbatim>\<open>int\<close>: the decimal digits,
  after a minus sign for a negative number. The same digit limit applies.
\<close>

fun digits10 :: "nat \<Rightarrow> string" where
  "digits10 n = (if n < 10 then [''0123456789'' ! n]
                 else digits10 (n div 10) @ [''0123456789'' ! (n mod 10)])"

declare digits10.simps [simp del]

definition py_str :: "nat \<Rightarrow> int \<Rightarrow> py_error + string" where
  "py_str lim n =
     (let ds = digits10 (nat \<bar>n\<bar>)
      in if exceeds_limit lim (length ds) then Inl ValueError
         else Inr (if n < 0 then CHR ''-'' # ds else ds))"

subsection \<open>Versions\<close>

text \<open>
  \<^verbatim>\<open>parse_version\<close> (lines 91 to 99). The \<^verbatim>\<open>try\<close> block evaluates \<^verbatim>\<open>int(parts[0])\<close>,
  \<^verbatim>\<open>int(parts[1])\<close>, \<^verbatim>\<open>int(parts[2])\<close> in this order; its handler turns an
  \<^verbatim>\<open>IndexError\<close> or a \<^verbatim>\<open>ValueError\<close> into a \<^verbatim>\<open>ValueError\<close>.
\<close>

definition parse_version :: "nat \<Rightarrow> string \<Rightarrow> py_error + (int \<times> int \<times> int)" where
  "parse_version lim version_str0 =
     (let version_str = py_lstrip ''v'' version_str0;
          parts = py_split (CHR ''.'') version_str;
          body =
            and_then (getitem parts 0) (\<lambda>s0. and_then (py_int lim s0) (\<lambda>a.
            and_then (getitem parts 1) (\<lambda>s1. and_then (py_int lim s1) (\<lambda>b.
            and_then (getitem parts 2) (\<lambda>s2. and_then (py_int lim s2) (\<lambda>c.
            Inr (a, b, c)))))))
      in case body of
           Inr v \<Rightarrow> Inr v
         | Inl e \<Rightarrow> if e = IndexError \<or> e = ValueError then Inl ValueError else Inl e)"

text \<open>\<^verbatim>\<open>format_version\<close> (lines 102 to 104): the f-string renders the three numbers.\<close>

definition format_version :: "nat \<Rightarrow> int \<Rightarrow> int \<Rightarrow> int \<Rightarrow> py_error + string" where
  "format_version lim major minor patch =
     and_then (py_str lim major) (\<lambda>a.
     and_then (py_str lim minor) (\<lambda>b.
     and_then (py_str lim patch) (\<lambda>c.
     Inr (a @ ''.'' @ b @ ''.'' @ c))))"

text \<open>
  The computation of the new version in \<^verbatim>\<open>main\<close> (lines 345 to 355); \<open>increment_type\<close>
  is what \<^verbatim>\<open>ask_version_increment\<close> returned, \<^verbatim>\<open>None\<close> or a string.
\<close>

definition calculate_new_version ::
  "int \<times> int \<times> int \<Rightarrow> string option \<Rightarrow> int \<times> int \<times> int" where
  "calculate_new_version v increment_type =
     (case v of (major, minor, patch) \<Rightarrow>
        if increment_type = Some ''major'' then (major + 1, 0, 0)
        else if increment_type = Some ''minor'' then (major, minor + 1, 0)
        else if increment_type = Some ''patch'' then (major, minor, patch + 1)
        else (major, minor, patch))"

section \<open>The release run\<close>

subsection \<open>The outside world\<close>

text \<open>
  A path of \<^verbatim>\<open>pathlib\<close> on a POSIX system: the root (\<^verbatim>\<open>/\<close> or empty) and the names
  below it.
\<close>

datatype path = Path (root: string) (names: "string list")

definition parent :: "path \<Rightarrow> path" where
  "parent p = Path (root p) (butlast (names p))"

definition joinpath :: "path \<Rightarrow> string \<Rightarrow> path" where
  "joinpath p name = Path (root p) (names p @ [name])"

fun join_names :: "string list \<Rightarrow> string" where
  "join_names [] = []"
| "join_names [n] = n"
| "join_names (n # ns) = n @ ''/'' @ join_names ns"

definition str_path :: "path \<Rightarrow> string" where
  "str_path p = (if root p = [] \<and> names p = [] then ''.'' else root p @ join_names (names p))"

text \<open>
  What \<^verbatim>\<open>json.load\<close> returns. An object keeps its keys in order; a float is kept as
  the 64 bits of its IEEE encoding. The script reads and writes the key \<^verbatim>\<open>version\<close> and
  looks at nothing else.
\<close>

datatype json =
    JNull
  | JBool bool
  | JInt int
  | JFloat "64 word"
  | JStr string
  | JArr "json list"
  | JObj "(string \<times> json) list"

text \<open>
  What \<^verbatim>\<open>subprocess.run\<close> does with \<^verbatim>\<open>capture_output\<close> and \<^verbatim>\<open>text\<close>: the process
  completes with a return code and its two outputs, or it cannot be run at all and
  an exception with some message is raised.
\<close>

datatype proc_result =
    Completed int string string
  | Not_run string

text \<open>
  Everything the script does to the outside world is recorded, with the answer it got:
  a test for a file, a prompt with the line read (\<open>None\<close> at the end of the input), a
  command, the reading of a JSON file, the writing of one.
\<close>

datatype event =
    Exists path bool
  | Input string "string option"
  | Run "string list" proc_result
  | Load path "py_error + json"
  | Dump path json "py_error option"

text \<open>
  The environment answers. Which files exist is asked at the start only; every other
  answer may depend on the request and on the number of interactions before it, so
  that the same command can succeed once and fail later.
\<close>

record env =
  path_exists :: "path \<Rightarrow> bool"
  subprocess_run :: "nat \<Rightarrow> string list \<Rightarrow> proc_result"
  json_load :: "nat \<Rightarrow> path \<Rightarrow> py_error + json"
  json_dump :: "nat \<Rightarrow> path \<Rightarrow> json \<Rightarrow> py_error option"

text \<open>
  The state of a run: the lines of standard input not yet read, the number of
  interactions so far, and their record, oldest first.
\<close>

record world =
  stdin :: "string list"
  clock :: nat
  trace :: "event list"

definition record_event :: "event \<Rightarrow> world \<Rightarrow> world" where
  "record_event e w = w\<lparr>clock := Suc (clock w), trace := trace w @ [e]\<rparr>"

text \<open>\<^verbatim>\<open>Path.exists()\<close>.\<close>

definition exists_file :: "env \<Rightarrow> path \<Rightarrow> world \<Rightarrow> bool \<times> world" where
  "exists_file env p w = (let b = path_exists env p in (b, record_event (Exists p b) w))"

text \<open>\<^verbatim>\<open>input(prompt)\<close>: the next line, or \<^verbatim>\<open>EOFError\<close> when there is none.\<close>

definition input :: "string \<Rightarrow> world \<Rightarrow> (py_error + string) \<times> world" where
  "input prompt w =
     (case stdin w of
        [] \<Rightarrow> (Inl EOFError, record_event (Input prompt None) w)
      | line # rest \<Rightarrow> (Inr line, record_event (Input prompt (Some line)) (w\<lparr>stdin := rest\<rparr>)))"

text \<open>The colours of the class \<^verbatim>\<open>Colors\<close> that occur in prompts.\<close>

definition BOLD :: string where
  "BOLD = CHR 0x1B # ''[1m''"

definition RESET :: string where
  "RESET = CHR 0x1B # ''[0m''"

subsection \<open>The helpers of the script\<close>

text \<open>
  \<^verbatim>\<open>run_command\<close> (lines 57 to 81); the description is only printed and is not a
  parameter here. The function never raises.
\<close>

definition succeeded :: "proc_result \<Rightarrow> bool" where
  "succeeded r = (case r of Completed returncode out err \<Rightarrow> returncode = 0 | Not_run msg \<Rightarrow> False)"

definition run_command :: "env \<Rightarrow> string list \<Rightarrow> world \<Rightarrow> (bool \<times> string) \<times> world" where
  "run_command env cmd w =
     (let r = subprocess_run env (clock w) cmd;
          w' = record_event (Run cmd r) w
      in (case r of
            Completed returncode out err \<Rightarrow>
              if returncode = 0 then (True, py_strip out) else (False, py_strip err)
          | Not_run msg \<Rightarrow> (False, msg),
          w'))"

text \<open>
  \<^verbatim>\<open>get_current_version\<close> (lines 84 to 88). Opening or decoding the file may raise;
  \<^verbatim>\<open>data.get\<close> exists for an object only and raises \<^verbatim>\<open>AttributeError\<close> on every other
  JSON value. The value under the key may be of any type.
\<close>

definition get_current_version :: "env \<Rightarrow> path \<Rightarrow> world \<Rightarrow> (py_error + json) \<times> world" where
  "get_current_version env package_json_path w =
     (let r = json_load env (clock w) package_json_path;
          w' = record_event (Load package_json_path r) w
      in (case r of
            Inl e \<Rightarrow> Inl e
          | Inr data \<Rightarrow>
              (case data of
                 JObj items \<Rightarrow>
                   (case map_of items ''version'' of
                      None \<Rightarrow> Inr (JStr ''0.0.0'')
                    | Some v \<Rightarrow> Inr v)
               | _ \<Rightarrow> Inl AttributeError),
          w'))"

text \<open>
  \<^verbatim>\<open>ask_version_increment\<close> (lines 107 to 131): the loop asks until the answer is one
  of 0 to 3. It ends with the input at the latest, then with \<^verbatim>\<open>EOFError\<close>.
\<close>

definition choice_prompt :: string where
  "choice_prompt = [CHR 0x0A] @ BOLD @ ''Enter your choice (0-3):'' @ RESET @ '' ''"

function ask_version_increment :: "world \<Rightarrow> (py_error + string option) \<times> world" where
  "ask_version_increment w =
     (case input choice_prompt w of
        (Inl e, w') \<Rightarrow> (Inl e, w')
      | (Inr line, w') \<Rightarrow>
          (let choice = py_strip line
           in if choice = ''0'' then (Inr None, w')
              else if choice = ''1'' then (Inr (Some ''patch''), w')
              else if choice = ''2'' then (Inr (Some ''minor''), w')
              else if choice = ''3'' then (Inr (Some ''major''), w')
              else ask_version_increment w'))"
  by pat_completeness auto
termination
  by (relation "measure (\<lambda>w. length (stdin w))")
     (auto simp: input_def record_event_def split: list.splits)

declare ask_version_increment.simps [simp del]

text \<open>\<^verbatim>\<open>confirm_action\<close> (lines 134 to 137).\<close>

definition confirm_prompt :: "string \<Rightarrow> string" where
  "confirm_prompt prompt = [CHR 0x0A] @ BOLD @ prompt @ RESET @ '' (y/n): ''"

definition confirm_action :: "string \<Rightarrow> world \<Rightarrow> (py_error + bool) \<times> world" where
  "confirm_action prompt w =
     (case input (confirm_prompt prompt) w of
        (Inl e, w') \<Rightarrow> (Inl e, w')
      | (Inr response, w') \<Rightarrow> (Inr (py_lower (py_strip response) = ''y''), w'))"

text \<open>\<^verbatim>\<open>commit_pending_changes\<close> (lines 159 to 181).\<close>

definition message_prompt :: string where
  "message_prompt = BOLD @ ''Message:'' @ RESET @ '' ''"

definition commit_pending_changes :: "env \<Rightarrow> world \<Rightarrow> (py_error + bool) \<times> world" where
  "commit_pending_changes env w =
     (case input message_prompt w of
        (Inl e, w1) \<Rightarrow> (Inl e, w1)
      | (Inr line, w1) \<Rightarrow>
          (let commit_message = py_strip line
           in if commit_message = [] then (Inr False, w1)
              else (case run_command env [''git'', ''add'', ''-A''] w1 of
                      ((success, out), w2) \<Rightarrow>
                        if \<not> success then (Inr False, w2)
                        else (case run_command env [''git'', ''commit'', ''-m'', commit_message] w2 of
                                ((success, out), w3) \<Rightarrow>
                                  if \<not> success then (Inr False, w3)
                                  else (Inr True, w3)))))"

text \<open>\<^verbatim>\<open>check_git_status\<close> (lines 140 to 156).\<close>

definition check_git_status :: "env \<Rightarrow> world \<Rightarrow> (py_error + bool) \<times> world" where
  "check_git_status env w =
     (case run_command env [''git'', ''status'', ''--porcelain''] w of
        ((success, output), w1) \<Rightarrow>
          if \<not> success then (Inr False, w1)
          else if output \<noteq> [] then
            (case confirm_action ''Would you like to commit these changes?'' w1 of
               (Inl e, w2) \<Rightarrow> (Inl e, w2)
             | (Inr yes, w2) \<Rightarrow>
                 if yes then commit_pending_changes env w2
                 else confirm_action ''Continue without committing?'' w2)
          else (Inr True, w1))"

text \<open>\<^verbatim>\<open>check_git_remote\<close> (lines 184 to 192).\<close>

definition check_git_remote :: "env \<Rightarrow> world \<Rightarrow> bool \<times> world" where
  "check_git_remote env w =
     (case run_command env [''git'', ''remote'', ''-v''] w of
        ((success, output), w1) \<Rightarrow>
          if \<not> success \<or> output = [] then (False, w1) else (True, w1))"

text \<open>
  \<^verbatim>\<open>update_json_version\<close> (lines 195 to 211). The assignment
  \<^verbatim>\<open>data["version"] = new_version\<close> replaces the value of the key or appends the key; on
  a JSON value that is not an object it raises \<^verbatim>\<open>TypeError\<close>. Every exception is
  caught and gives \<^verbatim>\<open>False\<close>.
\<close>

definition setitem :: "json \<Rightarrow> string \<Rightarrow> json \<Rightarrow> py_error + json" where
  "setitem data key v =
     (case data of
        JObj items \<Rightarrow> Inr (JObj (AList.update key v items))
      | _ \<Rightarrow> Inl TypeError)"

definition update_json_version :: "env \<Rightarrow> path \<Rightarrow> string \<Rightarrow> world \<Rightarrow> bool \<times> world" where
  "update_json_version env file_path new_version w =
     (let r = json_load env (clock w) file_path;
          w1 = record_event (Load file_path r) w
      in case and_then r (\<lambda>data. setitem data ''version'' (JStr new_version)) of
           Inl e \<Rightarrow> (False, w1)
         | Inr data \<Rightarrow>
             (let d = json_dump env (clock w1) file_path data;
                  w2 = record_event (Dump file_path data d) w1
              in (d = None, w2)))"

text \<open>\<^verbatim>\<open>git_add_and_commit\<close> (lines 214 to 229).\<close>

definition git_add_and_commit :: "env \<Rightarrow> string list \<Rightarrow> string \<Rightarrow> world \<Rightarrow> bool \<times> world" where
  "git_add_and_commit env files version w =
     (case run_command env ([''git'', ''add''] @ files) w of
        ((success, out), w1) \<Rightarrow>
          if \<not> success then (False, w1)
          else (case run_command env [''git'', ''commit'', ''-m'', ''chore: release v'' @ version] w1 of
                  ((success, out), w2) \<Rightarrow>
                    if \<not> success then (False, w2) else (True, w2)))"

text \<open>\<^verbatim>\<open>git_create_and_push_tag\<close> (lines 232 to 274).\<close>

definition git_create_and_push_tag :: "env \<Rightarrow> string \<Rightarrow> world \<Rightarrow> (py_error + bool) \<times> world" where
  "git_create_and_push_tag env version w =
     (let tag = ''v'' @ version;
          create_and_push = (\<lambda>w3.
            case run_command env [''git'', ''tag'', tag] w3 of
              ((success, out), w4) \<Rightarrow>
                if \<not> success then (Inr False, w4)
                else (case run_command env [''git'', ''push'', ''origin'', tag] w4 of
                        ((success, out), w5) \<Rightarrow>
                          if \<not> success then (Inr False, w5) else (Inr True, w5)))
      in case run_command env [''git'', ''tag'', ''-l'', tag] w of
           ((success, output), w1) \<Rightarrow>
             if success \<and> output \<noteq> [] then
               (case confirm_action ''Do you want to delete and recreate it?'' w1 of
                  (Inl e, w2) \<Rightarrow> (Inl e, w2)
                | (Inr yes, w2) \<Rightarrow>
                    if \<not> yes then (Inr False, w2)
                    else (case run_command env [''git'', ''tag'', ''-d'', tag] w2 of
                            ((success, out), w3) \<Rightarrow>
                              if \<not> success then (Inr False, w3)
                              else (case run_command env
                                           [''git'', ''push'', ''origin'', '':refs/tags/'' @ tag] w3 of
                                      ((success, out), w4) \<Rightarrow> create_and_push w4)))
             else create_and_push w1)"

subsection \<open>The main function\<close>

text \<open>
  The \<^verbatim>\<open>try\<close> block of \<^verbatim>\<open>main\<close> (lines 333 to 340): the version is read and parsed, and
  every exception ends in the handler. \<^verbatim>\<open>parse_version\<close> calls \<^verbatim>\<open>lstrip\<close> on its
  argument, which raises \<^verbatim>\<open>AttributeError\<close> when the value read is not a string.
\<close>

definition parse_version_of :: "nat \<Rightarrow> json \<Rightarrow> py_error + (int \<times> int \<times> int)" where
  "parse_version_of lim v = (case v of JStr s \<Rightarrow> parse_version lim s | _ \<Rightarrow> Inl AttributeError)"

definition read_current_version ::
  "nat \<Rightarrow> env \<Rightarrow> path \<Rightarrow> world \<Rightarrow> (py_error + json \<times> int \<times> int \<times> int) \<times> world" where
  "read_current_version lim env package_json w =
     (case get_current_version env package_json w of
        (r, w') \<Rightarrow>
          (and_then r (\<lambda>current_version.
           and_then (parse_version_of lim current_version) (\<lambda>v.
           Inr (current_version, v))),
           w'))"

text \<open>
  How a run ends: \<^verbatim>\<open>main\<close> returns and \<^verbatim>\<open>sys.exit\<close> passes the value on, or an
  exception that nothing catches ends the interpreter, which then exits with code 1.
\<close>

datatype outcome = Return int | Uncaught py_error

definition exit_code :: "outcome \<Rightarrow> int" where
  "exit_code r = (case r of Return n \<Rightarrow> n | Uncaught e \<Rightarrow> 1)"

text \<open>
  \<^verbatim>\<open>main\<close> (lines 306 to 394). \<open>file\<close> is the path of the script, \<open>inp\<close> the lines
  on standard input; the run starts with nothing recorded.
\<close>

definition release_question :: "string \<Rightarrow> string" where
  "release_question new_version = ''Proceed with releasing v'' @ new_version @ ''?''"

definition package_json_of :: "path \<Rightarrow> path" where
  "package_json_of file = joinpath (parent file) ''package.json''"

definition tauri_conf_of :: "path \<Rightarrow> path" where
  "tauri_conf_of file = joinpath (joinpath (parent file) ''src-tauri'') ''tauri.conf.json''"

definition main :: "nat \<Rightarrow> env \<Rightarrow> path \<Rightarrow> string list \<Rightarrow> outcome \<times> world" where
  "main lim env file inp =
     (let package_json = package_json_of file;
          tauri_conf = tauri_conf_of file;
          w0 = \<lparr>stdin = inp, clock = 0, trace = []\<rparr>
      in case exists_file env package_json w0 of (found, w1) \<Rightarrow>
         if \<not> found then (Return 1, w1) else
         case exists_file env tauri_conf w1 of (found, w2) \<Rightarrow>
         if \<not> found then (Return 1, w2) else
         case check_git_status env w2 of
           (Inl e, w3) \<Rightarrow> (Uncaught e, w3)
         | (Inr ok, w3) \<Rightarrow>
         if \<not> ok then (Return 1, w3) else
         case check_git_remote env w3 of (ok, w4) \<Rightarrow>
         if \<not> ok then (Return 1, w4) else
         case read_current_version lim env package_json w4 of
           (Inl e, w5) \<Rightarrow> (Return 1, w5)
         | (Inr (current_version, v), w5) \<Rightarrow>
         case ask_version_increment w5 of
           (Inl e, w6) \<Rightarrow> (Uncaught e, w6)
         | (Inr increment_type, w6) \<Rightarrow>
         case calculate_new_version v increment_type of (major, minor, patch) \<Rightarrow>
         case format_version lim major minor patch of
           Inl e \<Rightarrow> (Uncaught e, w6)
         | Inr new_version \<Rightarrow>
         case confirm_action (release_question new_version) w6 of
           (Inl e, w7) \<Rightarrow> (Uncaught e, w7)
         | (Inr yes, w7) \<Rightarrow>
         if \<not> yes then (Return 0, w7) else
         case update_json_version env package_json new_version w7 of (ok, w8) \<Rightarrow>
         if \<not> ok then (Return 1, w8) else
         case update_json_version env tauri_conf new_version w8 of (ok, w9) \<Rightarrow>
         if \<not> ok then (Return 1, w9) else
         case git_add_and_commit env [str_path package_json, str_path tauri_conf] new_version w9 of
           (ok, w10) \<Rightarrow>
         if \<not> ok then (Return 1, w10) else
         case git_create_and_push_tag env new_version w10 of
           (Inl e, w11) \<Rightarrow> (Uncaught e, w11)
         | (Inr ok, w11) \<Rightarrow>
         if \<not> ok then (Return 1, w11) else (Return 0, w11))"

subsection \<open>Notions of the specification\<close>

text \<open>
  The specification's \<open>format(parse(s))\<close>: the version string is parsed and the result is
  rendered again.
\<close>

definition roundtrip :: "nat \<Rightarrow> string \<Rightarrow> py_error + string" where
  "roundtrip lim s =
     and_then (parse_version lim s) (\<lambda>(major, minor, patch). format_version lim major minor patch)"

text \<open>A segment is numeric when it is a number written in digits: one digit or more.\<close>

definition numeric :: "string \<Rightarrow> bool" where
  "numeric seg = (seg \<noteq> [] \<and> list_all is_digit seg)"

text \<open>
  The wider notion that the script has by leaving the segments to \<^verbatim>\<open>int\<close>: the written
  form of an integer in Python. Groups of digits with one underscore between two groups,
  after at most one sign, with white space allowed before and after, and nothing else.
\<close>

fun digit_groups :: "string \<Rightarrow> bool" where
  "digit_groups [] = False"
| "digit_groups [c] = is_digit c"
| "digit_groups (c # d # cs) =
     (is_digit c \<and> (if d = CHR ''_'' then digit_groups cs else digit_groups (d # cs)))"

definition int_text :: "string \<Rightarrow> bool" where
  "int_text seg =
     (let t = rev (dropWhile int_isspace (rev (dropWhile int_isspace seg)));
          u = (case t of
                 [] \<Rightarrow> []
               | c # cs \<Rightarrow> if c = CHR ''+'' \<or> c = CHR ''-'' then cs else t)
      in digit_groups u)"

text \<open>
  The specification's reading of the prefix rule: one leading \<^verbatim>\<open>v\<close>, when present, is
  removed, and nothing else.
\<close>

definition strip_one_v :: "string \<Rightarrow> string" where
  "strip_one_v s = (case s of [] \<Rightarrow> [] | c # cs \<Rightarrow> if c = CHR ''v'' then cs else s)"

text \<open>An answer to a confirmation counts as yes as \<^verbatim>\<open>confirm_action\<close> reads it.\<close>

definition says_yes :: "string \<Rightarrow> bool" where
  "says_yes line = (py_lower (py_strip line) = ''y'')"

text \<open>An event that is a test for a file: no prompt, no command, no reading or writing.\<close>

definition is_file_test :: "event \<Rightarrow> bool" where
  "is_file_test e = (case e of Exists p b \<Rightarrow> True | _ \<Rightarrow> False)"

text \<open>
  How a run may end with exit code 0. Its last event is the final confirmation
  (\<^verbatim>\<open>Proceed with releasing v...\<close>) answered with something else than yes, or the push of
  the tag (\<^verbatim>\<open>git push origin v...\<close>) that succeeded.
\<close>

definition release_prompt :: "string \<Rightarrow> bool" where
  "release_prompt prompt =
     (let start = [CHR 0x0A] @ BOLD @ ''Proceed with releasing v''
      in take (length start) prompt = start)"

definition release_declined :: "event \<Rightarrow> bool" where
  "release_declined e =
     (case e of
        Input prompt reply \<Rightarrow>
          (case reply of Some line \<Rightarrow> release_prompt prompt \<and> \<not> says_yes line | None \<Rightarrow> False)
      | _ \<Rightarrow> False)"

definition tag_pushed :: "event \<Rightarrow> bool" where
  "tag_pushed e =
     (case e of
        Run cmd r \<Rightarrow>
          length cmd = 4 \<and> take 3 cmd = [''git'', ''push'', ''origin''] \<and> take 1 (cmd ! 3) = ''v''
          \<and> succeeded r
      | _ \<Rightarrow> False)"

definition ends_clean :: "event list \<Rightarrow> bool" where
  "ends_clean tr = (tr \<noteq> [] \<and> (release_declined (last tr) \<or> tag_pushed (last tr)))"

text \<open>
  The steps of the tag, as the specification words them. The tag exists locally when
  \<^verbatim>\<open>git tag -l\<close> succeeds and prints something. \<open>r\<close> is what the step returns.
\<close>

definition tag_exists :: "proc_result \<Rightarrow> bool" where
  "tag_exists listed =
     (case listed of
        Completed returncode out err \<Rightarrow> returncode = 0 \<and> py_strip out \<noteq> []
      | Not_run msg \<Rightarrow> False)"

fun create_and_push_protocol :: "string \<Rightarrow> event list \<Rightarrow> py_error + bool \<Rightarrow> bool" where
  "create_and_push_protocol tag [Run cmd created] r =
     (cmd = [''git'', ''tag'', tag] \<and> \<not> succeeded created \<and> r = Inr False)"
| "create_and_push_protocol tag [Run cmd created, Run cmd' pushed] r =
     (cmd = [''git'', ''tag'', tag] \<and> succeeded created \<and>
      cmd' = [''git'', ''push'', ''origin'', tag] \<and> r = Inr (succeeded pushed))"
| "create_and_push_protocol tag evs r = False"

fun recreate_protocol :: "string \<Rightarrow> event list \<Rightarrow> py_error + bool \<Rightarrow> bool" where
  "recreate_protocol tag (Run cmd deleted # evs) r =
     (cmd = [''git'', ''tag'', ''-d'', tag] \<and>
      (if \<not> succeeded deleted then evs = [] \<and> r = Inr False
       else (case evs of
               Run cmd' remote # evs' \<Rightarrow>
                 cmd' = [''git'', ''push'', ''origin'', '':refs/tags/'' @ tag] \<and>
                 create_and_push_protocol tag evs' r
             | _ \<Rightarrow> False)))"
| "recreate_protocol tag evs r = False"

fun tag_protocol :: "string \<Rightarrow> event list \<Rightarrow> py_error + bool \<Rightarrow> bool" where
  "tag_protocol tag (Run cmd listed # evs) r =
     (cmd = [''git'', ''tag'', ''-l'', tag] \<and>
      (if tag_exists listed then
         (case evs of
            Input prompt reply # evs' \<Rightarrow>
              prompt = confirm_prompt ''Do you want to delete and recreate it?'' \<and>
              (case reply of
                 None \<Rightarrow> evs' = [] \<and> r = Inl EOFError
               | Some line \<Rightarrow>
                   if says_yes line then recreate_protocol tag evs' r
                   else evs' = [] \<and> r = Inr False)
          | _ \<Rightarrow> False)
       else create_and_push_protocol tag evs r))"
| "tag_protocol tag evs r = False"

text \<open>
  The steps of the commit, as the specification words them: what follows in the record
  of a run after the second file has been written. \<open>None\<close> when it never was.
\<close>

fun after_update :: "path \<Rightarrow> event list \<Rightarrow> (json \<times> event list) option" where
  "after_update p [] = None"
| "after_update p (e # es) =
     (case e of
        Dump q written failure \<Rightarrow>
          if q = p \<and> failure = None then Some (written, es) else after_update p es
      | _ \<Rightarrow> after_update p es)"

definition json_version :: "json \<Rightarrow> string option" where
  "json_version j =
     (case j of
        JObj items \<Rightarrow> (case map_of items ''version'' of Some (JStr s) \<Rightarrow> Some s | _ \<Rightarrow> None)
      | _ \<Rightarrow> None)"

fun commit_protocol :: "string list \<Rightarrow> string \<Rightarrow> event list \<Rightarrow> outcome \<Rightarrow> bool" where
  "commit_protocol files version (Run cmd added # evs) r =
     (cmd = [''git'', ''add''] @ files \<and>
      (if \<not> succeeded added then evs = [] \<and> r = Return 1
       else (case evs of
               Run cmd' committed # evs' \<Rightarrow>
                 cmd' = [''git'', ''commit'', ''-m'', ''chore: release v'' @ version] \<and>
                 (succeeded committed \<or> evs' = [] \<and> r = Return 1)
             | _ \<Rightarrow> False)))"
| "commit_protocol files version evs r = False"

subsection \<open>Sample runs\<close>

definition script :: path where
  "script = Path ''/'' [''repo'', ''release.py'']"

text \<open>Every command succeeds, the tree is clean, both files hold version 1.2.3.\<close>

definition env_clean :: env where
  "env_clean =
     \<lparr>path_exists = (\<lambda>p. True),
      subprocess_run = (\<lambda>n cmd. if cmd = [''git'', ''remote'', ''-v'']
                                then Completed 0 ''origin git@example.org:hivecad.git (fetch)'' []
                                else Completed 0 [] []),
      json_load = (\<lambda>n p. Inr (JObj [(''name'', JStr ''hivecad''), (''version'', JStr ''1.2.3'')])),
      json_dump = (\<lambda>n p j. None)\<rparr>"

text \<open>The same, with a change in the working tree that is not committed.\<close>

definition env_dirty :: env where
  "env_dirty =
     env_clean\<lparr>subprocess_run := (\<lambda>n cmd.
        if cmd = [''git'', ''status'', ''--porcelain''] then Completed 0 '' M src/App.tsx'' []
        else subprocess_run env_clean n cmd)\<rparr>"

text \<open>The same as the clean one, but the tag to be made exists already.\<close>

definition env_tagged :: env where
  "env_tagged =
     env_clean\<lparr>subprocess_run := (\<lambda>n cmd.
        if take 3 cmd = [''git'', ''tag'', ''-l''] then Completed 0 (cmd ! 3) []
        else subprocess_run env_clean n cmd)\<rparr>"

text \<open>\<^verbatim>\<open>package.json\<close> is a JSON array, and an object without the key \<^verbatim>\<open>version\<close>.\<close>

definition env_array :: env where
  "env_array = env_clean\<lparr>json_load := (\<lambda>n p. Inr (JArr []))\<rparr>"

definition env_unversioned :: env where
  "env_unversioned = env_clean\<lparr>json_load := (\<lambda>n p. Inr (JObj [(''name'', JStr ''hivecad'')]))\<rparr>"

text \<open>A run starts with nothing recorded.\<close>

definition start :: "string list \<Rightarrow> world" where
  "start inp = \<lparr>stdin = inp, clock = 0, trace = []\<rparr>"

text \<open>The clean environment without the second metadata file.\<close>

definition env_no_tauri :: env where
  "env_no_tauri = env_clean\<lparr>path_exists := (\<lambda>p. p \<noteq> tauri_conf_of script)\<rparr>"

subsection \<open>Notions for the proofs\<close>

text \<open>A stretch of the record in which no file is written successfully.\<close>

definition quiet :: "event list \<Rightarrow> bool" where
  "quiet es = (\<forall>p. after_update p es = None)"

text \<open>An event that neither reads nor writes a JSON file.\<close>

definition talk :: "event \<Rightarrow> bool" where
  "talk e = (case e of Load p l \<Rightarrow> False | Dump p j d \<Rightarrow> False | _ \<Rightarrow> True)"

section \<open>Properties of the version functions\<close>

subsection \<open>Digits, literals and splitting\<close>

lemma digit_char:
  assumes "d < 10"
  shows "is_digit (''0123456789'' ! d)" and "digit_val (''0123456789'' ! d) = d"
proof -
  from assms have "d = 0 \<or> d = 1 \<or> d = 2 \<or> d = 3 \<or> d = 4 \<or> d = 5 \<or> d = 6 \<or> d = 7 \<or> d = 8 \<or> d = 9"
    by arith
  then show "is_digit (''0123456789'' ! d)" and "digit_val (''0123456789'' ! d) = d"
    by (auto simp: is_digit_def digit_val_def)
qed

lemma digits10_digits: "\<forall>c \<in> set (digits10 n). is_digit c"
proof (induction n rule: digits10.induct)
  case (1 n)
  show ?case
  proof (cases "n < 10")
    case True
    then show ?thesis by (simp add: digits10.simps [of n] digit_char)
  next
    case False
    then show ?thesis using 1 by (simp add: digits10.simps [of n] digit_char)
  qed
qed

lemma digits10_nonempty: "digits10 n \<noteq> []"
  by (subst digits10.simps) simp

lemma digits_value_snoc: "digits_value (ds @ [c]) = 10 * digits_value ds + digit_val c"
  by (simp add: digits_value_def)

lemma digits_value_digits10: "digits_value (digits10 n) = n"
proof (induction n rule: digits10.induct)
  case (1 n)
  show ?case
  proof (cases "n < 10")
    case True
    then show ?thesis by (simp add: digits10.simps [of n] digits_value_def digit_char)
  next
    case False
    then show ?thesis using 1
      by (simp add: digits10.simps [of n] digits_value_snoc digit_char)
  qed
qed

lemma is_digit_plain:
  "is_digit c \<Longrightarrow> c \<noteq> CHR ''_'' \<and> c \<noteq> CHR ''.'' \<and> c \<noteq> CHR ''v'' \<and> c \<noteq> CHR ''-''
     \<and> c \<noteq> CHR ''+'' \<and> \<not> int_isspace c"
  by (auto simp: is_digit_def int_isspace_def)

lemma scan_digits_all: "\<forall>c \<in> set ds. is_digit c \<Longrightarrow> scan_digits False ds"
  by (induction ds) (auto dest: is_digit_plain)

lemma int_literal_all: "ds \<noteq> [] \<Longrightarrow> \<forall>c \<in> set ds. is_digit c \<Longrightarrow> int_literal ds"
  by (cases ds) (auto simp: int_literal_def scan_digits_all dest: is_digit_plain)

lemma dropWhile_id: "xs \<noteq> [] \<Longrightarrow> \<not> P (hd xs) \<Longrightarrow> dropWhile P xs = xs"
  by (cases xs) auto

lemma py_int_digits:
  assumes "ds \<noteq> []" and "\<forall>c \<in> set ds. is_digit c" and "\<not> exceeds_limit lim (length ds)"
  shows "py_int lim ds = Inr (int (digits_value ds))"
proof -
  from assms obtain c cs where ds: "ds = c # cs" by (cases ds) auto
  with assms have c: "is_digit c" by simp
  have lead: "dropWhile int_isspace ds = ds"
    using c ds by (simp add: is_digit_plain)
  have "is_digit (last ds)" using assms by simp
  then have "\<not> int_isspace (hd (rev ds))"
    using assms(1) by (simp add: hd_rev is_digit_plain)
  then have trail: "rev (dropWhile int_isspace (rev ds)) = ds"
    using assms(1) by (simp add: dropWhile_id)
  have nous: "filter (\<lambda>c. c \<noteq> CHR ''_'') ds = ds"
    using assms(2) by (auto simp: filter_id_conv dest: is_digit_plain)
  have sign: "c \<noteq> CHR ''-''" "c \<noteq> CHR ''+''" using c by (simp_all add: is_digit_plain)
  show ?thesis
    unfolding py_int_def lead
    using sign assms int_literal_all [OF assms(1,2)] trail nous
    by (simp add: ds [symmetric] del: dropWhile.simps) (simp add: ds)
qed

lemma py_split_no_sep: "sep \<notin> set a \<Longrightarrow> py_split sep a = [a]"
  by (induction a) auto

lemma py_split_nonempty: "py_split sep s \<noteq> []"
  by (induction s) (auto split: list.splits)

lemma py_split_append: "sep \<notin> set a \<Longrightarrow> py_split sep (a @ sep # b) = a # py_split sep b"
  by (induction a) auto

lemma py_split_chars: "\<forall>p \<in> set (py_split sep s). set p \<subseteq> set s"
proof (induction s)
  case Nil
  then show ?case by simp
next
  case (Cons c cs)
  then show ?case
    by (cases "py_split sep cs") (auto split: if_splits)
qed

lemma py_int_error: "py_int lim seg = Inl e \<Longrightarrow> e = ValueError"
  by (auto simp: py_int_def Let_def split: if_splits prod.splits)

lemma and_then_Inr:
  "and_then r f = Inr y \<longleftrightarrow> (\<exists>x. r = Inr x \<and> f x = Inr y)"
  by (cases r) (simp_all add: and_then_def)

lemma getitem_Inr: "getitem xs i = Inr x \<longleftrightarrow> i < length xs \<and> x = xs ! i"
  by (auto simp: getitem_def)

lemma parse_version_Inr:
  "parse_version lim s = Inr (a, b, c) \<longleftrightarrow>
     (let parts = py_split (CHR ''.'') (py_lstrip ''v'' s)
      in 3 \<le> length parts \<and> py_int lim (parts ! 0) = Inr a
         \<and> py_int lim (parts ! 1) = Inr b \<and> py_int lim (parts ! 2) = Inr c)"
proof -
  have "parse_version lim s = Inr (a, b, c) \<longleftrightarrow>
     (let parts = py_split (CHR ''.'') (py_lstrip ''v'' s) in
            and_then (getitem parts 0) (\<lambda>s0. and_then (py_int lim s0) (\<lambda>a.
            and_then (getitem parts 1) (\<lambda>s1. and_then (py_int lim s1) (\<lambda>b.
            and_then (getitem parts 2) (\<lambda>s2. and_then (py_int lim s2) (\<lambda>c.
            Inr (a, b, c))))))) = Inr (a, b, c))"
    by (simp add: parse_version_def Let_def split: sum.split)
  also have "\<dots> \<longleftrightarrow> (let parts = py_split (CHR ''.'') (py_lstrip ''v'' s)
      in 3 \<le> length parts \<and> py_int lim (parts ! 0) = Inr a
         \<and> py_int lim (parts ! 1) = Inr b \<and> py_int lim (parts ! 2) = Inr c)"
    by (auto simp: Let_def and_then_Inr getitem_Inr)
  finally show ?thesis .
qed

lemma py_int_nonneg:
  assumes "py_int lim seg = Inr n" and "CHR ''-'' \<notin> set seg"
  shows "0 \<le> n"
proof -
  have "CHR ''-'' \<notin> set (dropWhile int_isspace seg)"
    using assms(2) by (auto dest: set_dropWhileD)
  then show ?thesis
    using assms(1)
    by (auto simp: py_int_def Let_def split: if_splits prod.splits list.splits)
qed

lemma py_str_nat:
  "py_str lim (int n) = Inr ds \<Longrightarrow> ds = digits10 n \<and> \<not> exceeds_limit lim (length ds)"
  by (auto simp: py_str_def Let_def split: if_splits)

lemma py_int_digits10:
  "\<not> exceeds_limit lim (length (digits10 n)) \<Longrightarrow> py_int lim (digits10 n) = Inr (int n)"
  using py_int_digits [of "digits10 n" lim]
  by (simp add: digits10_nonempty digits10_digits digits_value_digits10)

lemma digits10_no: "CHR ''.'' \<notin> set (digits10 n)" "CHR ''v'' \<notin> set (digits10 n)"
  using digits10_digits [of n] by (auto dest: is_digit_plain)

lemma py_lstrip_v: "CHR ''v'' \<notin> set a \<Longrightarrow> py_lstrip ''v'' (replicate k (CHR ''v'') @ a @ b) = a @ b"
  if "a \<noteq> []"
  using that by (induction k) (auto simp: py_lstrip_def neq_Nil_conv)

lemma parse_version_canonical:
  assumes "\<not> exceeds_limit lim (length (digits10 M))"
    and "\<not> exceeds_limit lim (length (digits10 m))"
    and "\<not> exceeds_limit lim (length (digits10 p))"
  shows "parse_version lim (replicate k (CHR ''v'') @ digits10 M @ ''.'' @ digits10 m @ ''.'' @ digits10 p)
         = Inr (int M, int m, int p)"
proof -
  have strip: "py_lstrip ''v'' (replicate k (CHR ''v'') @ digits10 M @ ''.'' @ digits10 m @ ''.'' @ digits10 p)
        = digits10 M @ ''.'' @ digits10 m @ ''.'' @ digits10 p"
    by (rule py_lstrip_v) (simp_all add: digits10_nonempty digits10_no)
  have split: "py_split (CHR ''.'') (digits10 M @ ''.'' @ digits10 m @ ''.'' @ digits10 p)
        = [digits10 M, digits10 m, digits10 p]"
    by (simp add: py_split_append py_split_no_sep digits10_no)
  show ?thesis
    using assms
    by (simp add: parse_version_def strip [simplified] split [simplified]
        getitem_def and_then_def py_int_digits10)
qed

lemma py_int_unlimited: "py_int lim seg = Inr n \<Longrightarrow> py_int 0 seg = Inr n"
  by (auto simp: py_int_def Let_def exceeds_limit_def split: if_splits prod.splits)

lemma length_py_split_Cons:
  "c \<noteq> sep \<Longrightarrow> length (py_split sep (c # cs)) = length (py_split sep cs)"
  by (cases "py_split sep cs") (auto simp: py_split_nonempty)

lemma length_py_split_lstrip:
  "length (py_split (CHR ''.'') (py_lstrip ''v'' s)) = length (py_split (CHR ''.'') s)"
  by (induction s) (simp_all add: py_lstrip_def length_py_split_Cons del: py_split.simps(2))

lemma and_then_Inl:
  "and_then r f = Inl e \<longleftrightarrow> r = Inl e \<or> (\<exists>x. r = Inr x \<and> f x = Inl e)"
  by (cases r) (simp_all add: and_then_def)

lemma getitem_Inl: "getitem xs i = Inl e \<longleftrightarrow> \<not> i < length xs \<and> e = IndexError"
  by (auto simp: getitem_def)

lemma parse_version_errors:
  assumes "parse_version lim s = Inl e"
  shows "e = ValueError"
proof -
  define parts where "parts = py_split (CHR ''.'') (py_lstrip ''v'' s)"
  define body where "body =
            and_then (getitem parts 0) (\<lambda>s0. and_then (py_int lim s0) (\<lambda>a.
            and_then (getitem parts 1) (\<lambda>s1. and_then (py_int lim s1) (\<lambda>b.
            and_then (getitem parts 2) (\<lambda>s2. and_then (py_int lim s2) (\<lambda>c.
            Inr (a, b, c)))))))"
  let ?P = "\<lambda>r :: py_error + int \<times> int \<times> int. \<forall>e. r = Inl e \<longrightarrow> e = IndexError \<or> e = ValueError"
  have step: "?P (and_then r f)"
    if "\<And>e. r = Inl e \<Longrightarrow> e = IndexError \<or> e = ValueError" and "\<And>x. ?P (f x)"
    for r :: "py_error + 'x" and f
    using that by (cases r) (simp_all add: and_then_def)
  have "?P body"
    unfolding body_def
    by (intro step) (simp_all add: getitem_Inl py_int_error)
  then have body: "e' = IndexError \<or> e' = ValueError" if "body = Inl e'" for e'
    using that by simp
  have "parse_version lim s =
     (case body of Inr v \<Rightarrow> Inr v
      | Inl e \<Rightarrow> if e = IndexError \<or> e = ValueError then Inl ValueError else Inl e)"
    by (simp add: parse_version_def body_def parts_def Let_def)
  with assms body show ?thesis
    by (cases body) (auto split: if_splits)
qed


subsection \<open>The increment\<close>

text \<open>
  C1. For every version triple \<open>(M, m, p)\<close> the computation of the new version yields
  \<open>(M + 1, 0, 0)\<close> for the directive major, \<open>(M, m + 1, 0)\<close> for minor,
  \<open>(M, m, p + 1)\<close> for patch, and the triple itself for none.
\<close>

theorem calculate_new_version_directives:
  "calculate_new_version (M, m, p) (Some ''major'') = (M + 1, 0, 0) \<and>
   calculate_new_version (M, m, p) (Some ''minor'') = (M, m + 1, 0) \<and>
   calculate_new_version (M, m, p) (Some ''patch'') = (M, m, p + 1) \<and>
   calculate_new_version (M, m, p) None = (M, m, p)"
  by (simp add: calculate_new_version_def)

subsection \<open>Parsing and formatting\<close>

text \<open>
  C2, as the specification states it, fails for an input with the prefix: the rendering
  has no prefix, so \<open>format(parse(s))\<close> of \<^verbatim>\<open>v1.2.3\<close> is \<^verbatim>\<open>1.2.3\<close>.
\<close>

theorem roundtrip_prefix_counterexample:
  "roundtrip 4300 ''v1.2.3'' = Inr ''1.2.3'' \<and> roundtrip 4300 ''v1.2.3'' \<noteq> Inr ''v1.2.3''"
  by code_simp

text \<open>
  C2, amended. Let \<open>s\<close> be the rendering of three non-negative integers (a well-formed
  \<^verbatim>\<open>M.m.p\<close>). Then \<open>format(parse(s))\<close> is \<open>s\<close>, and for \<open>s\<close> behind any number of leading
  \<^verbatim>\<open>v\<close> it is \<open>s\<close> again, without the prefix.
\<close>

theorem roundtrip_canonical:
  assumes "format_version lim (int M) (int m) (int p) = Inr s"
  shows "roundtrip lim (replicate k (CHR ''v'') @ s) = Inr s"
proof -
  from assms obtain a b c where
    a: "py_str lim (int M) = Inr a" and b: "py_str lim (int m) = Inr b"
    and c: "py_str lim (int p) = Inr c" and s: "s = a @ ''.'' @ b @ ''.'' @ c"
    by (auto simp: format_version_def and_then_Inr)
  from a b c have eqs: "a = digits10 M" "b = digits10 m" "c = digits10 p"
    and lims: "\<not> exceeds_limit lim (length (digits10 M))"
      "\<not> exceeds_limit lim (length (digits10 m))" "\<not> exceeds_limit lim (length (digits10 p))"
    by (auto dest: py_str_nat)
  have "parse_version lim (replicate k (CHR ''v'') @ s) = Inr (int M, int m, int p)"
    unfolding s eqs by (rule parse_version_canonical [OF lims])
  then show ?thesis
    using assms by (simp add: roundtrip_def and_then_def)
qed

theorem roundtrip_canonical_witness:
  "format_version 4300 1 2 3 = Inr ''1.2.3'' \<and> roundtrip 4300 ''1.2.3'' = Inr ''1.2.3''
   \<and> roundtrip 4300 ''v1.2.3'' = Inr ''1.2.3''"
proof -
  have h: "format_version 4300 (int 1) (int 2) (int 3) = Inr ''1.2.3''"
    by code_simp
  show ?thesis
    using h roundtrip_canonical [OF h, of 0] roundtrip_canonical [OF h, of 1]
    by simp
qed

text \<open>
  C3, as the specification states it, fails: \<^verbatim>\<open>int\<close> reads more than digits. The first
  segment of \<^verbatim>\<open>+1.2.3\<close> is not numeric, and the version (1, 2, 3) is returned.
\<close>

theorem parse_version_sign_counterexample:
  "\<not> numeric ''+1'' \<and> py_split (CHR ''.'') ''+1.2.3'' = [''+1'', ''2'', ''3'']
   \<and> parse_version 4300 ''+1.2.3'' = Inr (1, 2, 3)"
  by code_simp

text \<open>
  What \<^verbatim>\<open>int\<close> accepts is exactly the written form of an integer, and every numeric
  segment has this form.
\<close>

lemma digit_groups_scan:
  "is_digit c \<Longrightarrow> scan_digits False cs \<Longrightarrow> digit_groups (c # cs)"
proof (induction cs arbitrary: c rule: length_induct)
  case (1 cs)
  show ?case
  proof (cases cs)
    case Nil
    with 1 show ?thesis by simp
  next
    case (Cons d ds)
    show ?thesis
    proof (cases "d = CHR ''_''")
      case False
      with 1 Cons show ?thesis by simp
    next
      case True
      with "1.prems" Cons have "scan_digits True ds" by simp
      then obtain e es where ds: "ds = e # es" and e: "e \<noteq> CHR ''_''"
        and "is_digit e" "scan_digits False es"
        by (cases ds) (auto split: if_splits)
      with 1 Cons have "digit_groups (e # es)" by simp
      with True Cons ds "1.prems" show ?thesis by simp
    qed
  qed
qed

lemma int_literal_groups: "int_literal s \<Longrightarrow> digit_groups s"
  by (cases s) (auto simp: int_literal_def intro: digit_groups_scan)

lemma int_literal_nonempty: "int_literal s \<Longrightarrow> s \<noteq> []"
  by (auto simp: int_literal_def)

lemma rstrip_Cons:
  "rev (dropWhile P (rev (c # cs))) =
     (if rev (dropWhile P (rev cs)) = [] then (if P c then [] else [c])
      else c # rev (dropWhile P (rev cs)))"
  by (auto simp: dropWhile_append dropWhile_eq_Nil_conv)

lemma rstrip_Cons_cases:
  "rev (dropWhile P (rev (c # cs))) = [] \<or> (\<exists>ds. rev (dropWhile P (rev (c # cs))) = c # ds)"
proof (cases "rev (dropWhile P (rev cs)) = []")
  case True
  have "rev (dropWhile P (rev (c # cs))) = (if P c then [] else [c])"
    by (subst rstrip_Cons) (simp only: True if_True simp_thms)
  then show ?thesis by (cases "P c") simp_all
next
  case False
  have "rev (dropWhile P (rev (c # cs))) = c # rev (dropWhile P (rev cs))"
    by (subst rstrip_Cons) (simp only: False if_False)
  then show ?thesis by blast
qed

lemma py_int_int_text:
  assumes "py_int lim seg = Inr n"
  shows "int_text seg"
proof (cases "dropWhile int_isspace seg")
  case Nil
  with assms show ?thesis
    by (simp add: py_int_def int_literal_def)
next
  case (Cons c cs)
  let ?r = "\<lambda>x. rev (dropWhile int_isspace (rev x))"
  show ?thesis
  proof (cases "c = CHR ''+'' \<or> c = CHR ''-''")
    case True
    with assms Cons have lit: "int_literal (?r cs)"
      by (auto simp: py_int_def Let_def split: if_splits)
    then have "?r cs \<noteq> []"
      by (rule int_literal_nonempty)
    then have "?r (c # cs) = c # ?r cs"
      by (subst rstrip_Cons) (simp only: if_False)
    with True Cons lit show ?thesis
      by (auto simp: int_text_def Let_def intro: int_literal_groups)
  next
    case False
    with assms Cons have lit: "int_literal (?r (c # cs))"
      by (auto simp: py_int_def Let_def split: if_splits)
    then have "?r (c # cs) \<noteq> []"
      by (rule int_literal_nonempty)
    then obtain ds where "?r (c # cs) = c # ds"
      using rstrip_Cons_cases [of int_isspace c cs] by blast
    with False Cons lit show ?thesis
      by (auto simp: int_text_def Let_def dest: int_literal_groups)
  qed
qed

lemma strip_one_v_lstrip:
  "py_lstrip ''v'' s = strip_one_v s \<longleftrightarrow> (\<forall>cs. s \<noteq> CHR ''v'' # CHR ''v'' # cs)"
proof -
  have "dropWhile P xs \<noteq> x # xs" for P and x :: char and xs
    using length_dropWhile_le [of P xs] by auto
  then show ?thesis
    by (cases s; cases "tl s") (auto simp: py_lstrip_def strip_one_v_def)
qed


lemma digit_groups_literal:
  "digit_groups s \<Longrightarrow> s \<noteq> [] \<and> is_digit (hd s) \<and> scan_digits False s"
  by (induction s rule: digit_groups.induct)
     (auto dest: is_digit_plain simp: neq_Nil_conv split: if_splits)

lemma groups_int_literal: "digit_groups s \<Longrightarrow> int_literal s"
  using digit_groups_literal [of s]
  by (cases s) (auto simp: int_literal_def dest: is_digit_plain)

lemma rstrip_head:
  "\<not> P c \<Longrightarrow> rev (dropWhile P (rev (c # cs))) = c # rev (dropWhile P (rev cs))"
  by (subst rstrip_Cons) simp

lemma int_text_py_int:
  assumes "int_text seg"
  shows "\<exists>n. py_int 0 seg = Inr n"
proof (cases "dropWhile int_isspace seg")
  case Nil
  with assms show ?thesis
    by (simp add: int_text_def)
next
  case (Cons c cs)
  then have "\<not> int_isspace c"
    using hd_dropWhile [of int_isspace seg] by auto
  then have t: "rev (dropWhile int_isspace (rev (c # cs))) = c # rev (dropWhile int_isspace (rev cs))"
    by (rule rstrip_head)
  show ?thesis
  proof (cases "c = CHR ''+'' \<or> c = CHR ''-''")
    case True
    from assms Cons True have "digit_groups (rev (dropWhile int_isspace (rev cs)))"
      unfolding int_text_def Let_def Cons t by auto
    then have "int_literal (rev (dropWhile int_isspace (rev cs)))"
      by (rule groups_int_literal)
    with True Cons show ?thesis
      by (auto simp: py_int_def Let_def exceeds_limit_def)
  next
    case False
    from assms Cons False have "digit_groups (rev (dropWhile int_isspace (rev (c # cs))))"
      unfolding int_text_def Let_def Cons t by simp
    then have "int_literal (rev (dropWhile int_isspace (rev (c # cs))))"
      by (rule groups_int_literal)
    with False Cons show ?thesis
      by (auto simp: py_int_def Let_def exceeds_limit_def simp del: rev.simps)
  qed
qed

lemma int_text_iff: "int_text seg \<longleftrightarrow> (\<exists>n. py_int 0 seg = Inr n)"
  using int_text_py_int py_int_int_text by blast

lemma digit_groups_all: "ds \<noteq> [] \<Longrightarrow> list_all is_digit ds \<Longrightarrow> digit_groups ds"
  by (induction ds rule: digit_groups.induct) (auto dest: is_digit_plain)

lemma numeric_int_text:
  assumes "numeric seg"
  shows "int_text seg"
proof -
  from assms obtain c cs where seg: "seg = c # cs" and "is_digit c"
    and all: "list_all is_digit seg" and ne: "seg \<noteq> []"
    by (cases seg) (auto simp: numeric_def)
  then have lead: "dropWhile int_isspace seg = seg"
    by (simp add: is_digit_plain)
  from all ne have "is_digit (last seg)"
    by (simp add: list_all_iff)
  then have "\<not> int_isspace (hd (rev seg))"
    using ne by (simp add: hd_rev is_digit_plain)
  then have trail: "rev (dropWhile int_isspace (rev seg)) = seg"
    using ne by (simp add: dropWhile_id)
  from \<open>is_digit c\<close> have "c \<noteq> CHR ''+''" "c \<noteq> CHR ''-''"
    by (simp_all add: is_digit_plain)
  then show ?thesis
    unfolding int_text_def lead trail Let_def
    using all ne by (simp add: seg digit_groups_all [of "c # cs"])
qed


text \<open>
  C3, amended. An input with fewer than three segments between dots makes
  \<^verbatim>\<open>parse_version\<close> raise \<^verbatim>\<open>ValueError\<close>; so does an input with at most one leading
  \<^verbatim>\<open>v\<close> in which one of the first three segments, after that \<^verbatim>\<open>v\<close>, is not the written
  form of an integer. No version is returned.
\<close>

theorem parse_version_rejects:
  assumes "length (py_split (CHR ''.'') s) < 3
         \<or> py_lstrip ''v'' s = strip_one_v s
           \<and> (\<exists>i<3. \<not> int_text (py_split (CHR ''.'') (strip_one_v s) ! i))"
  shows "parse_version lim s = Inl ValueError"
proof (cases "parse_version lim s")
  case (Inl e)
  then show ?thesis by (simp add: parse_version_errors)
next
  case (Inr v)
  let ?parts = "py_split (CHR ''.'') (py_lstrip ''v'' s)"
  obtain a b c where v: "v = (a, b, c)" by (cases v)
  from Inr have len: "3 \<le> length ?parts" and ints: "py_int lim (?parts ! 0) = Inr a"
    "py_int lim (?parts ! 1) = Inr b" "py_int lim (?parts ! 2) = Inr c"
    by (simp_all add: v parse_version_Inr Let_def)
  have num: "int_text (?parts ! 0)" "int_text (?parts ! 1)" "int_text (?parts ! 2)"
    using ints [THEN py_int_int_text] by simp_all
  have "int_text (?parts ! i)" if "i < 3" for i
  proof -
    from that have "i = 0 \<or> i = 1 \<or> i = 2" by arith
    with num show ?thesis by auto
  qed
  with assms len show ?thesis
    by (auto simp: length_py_split_lstrip)
qed

theorem parse_version_rejects_witness:
  "length (py_split (CHR ''.'') ''1.2'') < 3 \<and> parse_version 4300 ''1.2'' = Inl ValueError
   \<and> py_lstrip ''v'' ''v1.x.3'' = strip_one_v ''v1.x.3''
   \<and> \<not> int_text (py_split (CHR ''.'') (strip_one_v ''v1.x.3'') ! 1)
   \<and> parse_version 4300 ''v1.x.3'' = Inl ValueError"
proof -
  have short: "length (py_split (CHR ''.'') ''1.2'') < 3"
    by code_simp
  have one: "py_lstrip ''v'' ''v1.x.3'' = strip_one_v ''v1.x.3''"
    by code_simp
  have letter: "\<not> int_text (py_split (CHR ''.'') (strip_one_v ''v1.x.3'') ! 1)"
    by code_simp
  then have "\<exists>i<3. \<not> int_text (py_split (CHR ''.'') (strip_one_v ''v1.x.3'') ! i)"
    by (intro exI [of _ 1]) simp
  then show ?thesis
    using short one letter parse_version_rejects [of "''1.2''" 4300]
      parse_version_rejects [of "''v1.x.3''" 4300]
    by blast
qed

text \<open>
  C4 says that at most one leading \<^verbatim>\<open>v\<close> is removed. The comment in the source says the
  same (``Remove 'v' prefix if present''), but \<^verbatim>\<open>lstrip("v")\<close> removes every leading
  \<^verbatim>\<open>v\<close>: \<^verbatim>\<open>vv1.2.3\<close> is accepted as version 1.2.3, although after the removal of one
  \<^verbatim>\<open>v\<close> its first segment \<^verbatim>\<open>v1\<close> is not numeric, in any sense: \<^verbatim>\<open>int\<close> rejects it.
\<close>

theorem parse_version_strips_every_v:
  "parse_version 4300 ''vv1.2.3'' = Inr (1, 2, 3)
   \<and> py_split (CHR ''.'') (strip_one_v ''vv1.2.3'') = [''v1'', ''2'', ''3'']
   \<and> \<not> numeric ''v1'' \<and> \<not> int_text ''v1'' \<and> py_int 0 ''v1'' = Inl ValueError"
  by code_simp

text \<open>
  C5, as the specification states it, fails: \<^verbatim>\<open>int\<close> accepts a sign, so a version with a
  negative component is returned.
\<close>

theorem parse_version_negative_counterexample:
  "parse_version 4300 ''-1.2.3'' = Inr (- 1, 2, 3)"
  by code_simp

text \<open>
  C5, amended. Every version that \<^verbatim>\<open>parse_version\<close> returns for an input without a minus
  sign has three non-negative components.
\<close>

theorem parse_version_nonneg:
  assumes "parse_version lim s = Inr (major, minor, patch)" and "CHR ''-'' \<notin> set s"
  shows "0 \<le> major \<and> 0 \<le> minor \<and> 0 \<le> patch"
proof -
  let ?parts = "py_split (CHR ''.'') (py_lstrip ''v'' s)"
  have "\<forall>p \<in> set ?parts. CHR ''-'' \<notin> set p"
    using py_split_chars [of "CHR ''.''" "py_lstrip ''v'' s"] assms(2)
    by (auto simp: py_lstrip_def dest: set_dropWhileD)
  then have nth: "CHR ''-'' \<notin> set (?parts ! i)" if "i < length ?parts" for i
    using that by simp
  from assms(1) have "3 \<le> length ?parts" "py_int lim (?parts ! 0) = Inr major"
    "py_int lim (?parts ! 1) = Inr minor" "py_int lim (?parts ! 2) = Inr patch"
    by (simp_all add: parse_version_Inr Let_def)
  then show ?thesis
    using nth [of 0] nth [of 1] nth [of 2]
      py_int_nonneg [of lim "?parts ! 0" major] py_int_nonneg [of lim "?parts ! 1" minor]
      py_int_nonneg [of lim "?parts ! 2" patch]
    by (simp add: py_split_nonempty del: One_nat_def)
qed

theorem parse_version_nonneg_witness:
  "parse_version 4300 ''v0.9.9'' = Inr (0, 9, 9) \<and> CHR ''-'' \<notin> set ''v0.9.9''
   \<and> (0::int) \<le> 0 \<and> (0::int) \<le> 9"
proof -
  have h: "parse_version 4300 ''v0.9.9'' = Inr (0, 9, 9)"
    by code_simp
  have m: "CHR ''-'' \<notin> set ''v0.9.9''"
    by simp
  show ?thesis
    using h m parse_version_nonneg [OF h m] by simp
qed

section \<open>Properties of the release run\<close>

subsection \<open>Single steps\<close>

lemma trace_record_event [simp]: "trace (record_event e w) = trace w @ [e]"
  and clock_record_event [simp]: "clock (record_event e w) = Suc (clock w)"
  and stdin_record_event [simp]: "stdin (record_event e w) = stdin w"
  by (simp_all add: record_event_def)

lemma run_command_eq:
  "run_command env cmd w =
     ((succeeded (subprocess_run env (clock w) cmd),
       (case subprocess_run env (clock w) cmd of
          Completed returncode out err \<Rightarrow> if returncode = 0 then py_strip out else py_strip err
        | Not_run msg \<Rightarrow> msg)),
      record_event (Run cmd (subprocess_run env (clock w) cmd)) w)"
  by (simp add: run_command_def succeeded_def Let_def split: proc_result.split)

lemma input_trace:
  "input prompt w = (x, y) \<Longrightarrow> \<exists>reply. trace y = trace w @ [Input prompt reply]"
  by (auto simp: input_def split: list.splits)

lemma ask_version_increment_trace:
  "ask_version_increment w = (r, w') \<Longrightarrow>
     \<exists>replies. replies \<noteq> [] \<and> trace w' = trace w @ map (Input choice_prompt) replies"
proof (induction w arbitrary: r w' rule: ask_version_increment.induct)
  case (1 w)
  obtain x y where xy: "input choice_prompt w = (x, y)"
    by (cases "input choice_prompt w")
  then obtain reply where y: "trace y = trace w @ [Input choice_prompt reply]"
    by (auto dest: input_trace)
  show ?case
  proof (cases "\<exists>b. x = Inr b \<and> py_strip b \<notin> {''0'', ''1'', ''2'', ''3''}")
    case True
    then obtain b where b: "x = Inr b" "py_strip b \<notin> {''0'', ''1'', ''2'', ''3''}"
      by blast
    with "1.prems" xy have "ask_version_increment y = (r, w')"
      by (subst (asm) ask_version_increment.simps) (simp add: Let_def)
    with "1.IH" [of x y b "py_strip b"] xy b obtain replies where
      "replies \<noteq> []" "trace w' = trace y @ map (Input choice_prompt) replies"
      by auto
    with y have "trace w' = trace w @ map (Input choice_prompt) (reply # replies)"
      by simp
    then show ?thesis by blast
  next
    case False
    with "1.prems" xy have "w' = y"
      by (subst (asm) ask_version_increment.simps) (auto simp: Let_def split: sum.splits if_splits)
    with y have "trace w' = trace w @ map (Input choice_prompt) [reply]"
      by simp
    then show ?thesis by blast
  qed
qed

subsection \<open>How the steps end\<close>

lemma ends_clean_simps [simp]:
  "ends_clean (tr @ e # es) = ends_clean (e # es)"
  "ends_clean (e # e' # es) = ends_clean (e' # es)"
  "ends_clean [e] = (release_declined e \<or> tag_pushed e)"
  by (simp_all add: ends_clean_def)

lemma release_prompt_simps [simp]:
  "\<not> release_prompt (confirm_prompt ''Would you like to commit these changes?'')"
  "\<not> release_prompt (confirm_prompt ''Continue without committing?'')"
  "\<not> release_prompt (confirm_prompt ''Do you want to delete and recreate it?'')"
  "\<not> release_prompt message_prompt"
  "\<not> release_prompt choice_prompt"
  "release_prompt (confirm_prompt (release_question new_version))"
  by (simp_all add: release_prompt_def confirm_prompt_def BOLD_def RESET_def choice_prompt_def
      message_prompt_def release_question_def)

lemma event_kinds [simp]:
  "\<not> release_declined (Exists p b)" "\<not> tag_pushed (Exists p b)"
  "\<not> release_declined (Run cmd r)" "\<not> tag_pushed (Input prompt reply)"
  "\<not> release_declined (Load p l)" "\<not> tag_pushed (Load p l)"
  "\<not> release_declined (Dump p j d)" "\<not> tag_pushed (Dump p j d)"
  "\<not> release_declined (Input prompt None)"
  "release_declined (Input prompt (Some line)) = (release_prompt prompt \<and> \<not> says_yes line)"
  by (simp_all add: release_declined_def tag_pushed_def)

lemma confirm_action_end:
  "confirm_action p w = (r, w') \<Longrightarrow>
     ends_clean (trace w') = (release_prompt (confirm_prompt p) \<and> r = Inr False)"
  by (auto simp: confirm_action_def input_def says_yes_def split: list.splits)

lemma run_command_end:
  "run_command env cmd w = ((ok, out), w') \<Longrightarrow>
     ends_clean (trace w') = tag_pushed (Run cmd (subprocess_run env (clock w) cmd))
     \<and> ok = succeeded (subprocess_run env (clock w) cmd)"
  by (auto simp: run_command_eq)

lemma commit_pending_changes_end:
  "commit_pending_changes env w = (r, w') \<Longrightarrow> \<not> ends_clean (trace w')"
  by (auto simp: commit_pending_changes_def input_def Let_def tag_pushed_def
      split: list.splits if_splits prod.splits dest!: run_command_end)

lemma check_git_status_end:
  "check_git_status env w = (r, w') \<Longrightarrow> r \<noteq> Inr True \<Longrightarrow> \<not> ends_clean (trace w')"
  by (auto simp: check_git_status_def tag_pushed_def
      split: if_splits prod.splits sum.splits
      dest!: run_command_end confirm_action_end commit_pending_changes_end)

lemma check_git_remote_end:
  "check_git_remote env w = (False, w') \<Longrightarrow> \<not> ends_clean (trace w')"
  by (auto simp: check_git_remote_def tag_pushed_def split: if_splits prod.splits
      dest!: run_command_end)

lemma read_current_version_end:
  "read_current_version lim env p w = (r, w') \<Longrightarrow> \<not> ends_clean (trace w')"
  by (auto simp: read_current_version_def get_current_version_def Let_def)

lemma ask_version_increment_end:
  "ask_version_increment w = (r, w') \<Longrightarrow> \<not> ends_clean (trace w')"
proof -
  assume "ask_version_increment w = (r, w')"
  then obtain replies where "replies \<noteq> []"
    and tr: "trace w' = trace w @ map (Input choice_prompt) replies"
    by (auto dest: ask_version_increment_trace)
  then obtain rs reply where "replies = rs @ [reply]"
    by (cases replies rule: rev_cases) auto
  with tr have "trace w' = (trace w @ map (Input choice_prompt) rs) @ [Input choice_prompt reply]"
    by simp
  then show ?thesis
    by (cases reply) (simp_all del: append_assoc)
qed

lemma update_json_version_end:
  "update_json_version env p v w = (ok, w') \<Longrightarrow> \<not> ends_clean (trace w')"
  by (auto simp: update_json_version_def Let_def split: sum.splits)

lemma git_add_and_commit_end:
  "git_add_and_commit env [a, b] v w = (False, w') \<Longrightarrow> \<not> ends_clean (trace w')"
  by (auto simp: git_add_and_commit_def tag_pushed_def split: if_splits prod.splits
      dest!: run_command_end)

lemma git_create_and_push_tag_end:
  "git_create_and_push_tag env v w = (r, w') \<Longrightarrow> ends_clean (trace w') = (r = Inr True)"
  by (auto simp: git_create_and_push_tag_def run_command_eq Let_def confirm_action_def input_def
      tag_pushed_def split: if_splits list.splits)

subsection \<open>The cases of the main function\<close>

text \<open>
  A property of every way in which \<^verbatim>\<open>main\<close> can end holds of \<^verbatim>\<open>main\<close>; each case names
  the step that ended the run.
\<close>

lemma main_rule:
  fixes P :: "outcome \<times> world \<Rightarrow> bool"
  assumes "\<And>p w w'. exists_file env p w = (False, w') \<Longrightarrow> P (Return 1, w')"
    and "\<And>w w' e. check_git_status env w = (Inl e, w') \<Longrightarrow> P (Uncaught e, w')"
    and "\<And>w w'. check_git_status env w = (Inr False, w') \<Longrightarrow> P (Return 1, w')"
    and "\<And>w w'. check_git_remote env w = (False, w') \<Longrightarrow> P (Return 1, w')"
    and "\<And>w w' e. read_current_version lim env (package_json_of file) w = (Inl e, w') \<Longrightarrow> P (Return 1, w')"
    and "\<And>w w' e r. ask_version_increment w = (r, w') \<Longrightarrow> P (Uncaught e, w')"
    and "\<And>w w' e v. confirm_action (release_question v) w = (Inl e, w') \<Longrightarrow> P (Uncaught e, w')"
    and "\<And>w w' v. confirm_action (release_question v) w = (Inr False, w') \<Longrightarrow> P (Return 0, w')"
    and "\<And>w w' p v. update_json_version env p v w = (False, w') \<Longrightarrow> P (Return 1, w')"
    and "\<And>w w' a b v. git_add_and_commit env [a, b] v w = (False, w') \<Longrightarrow> P (Return 1, w')"
    and "\<And>w w' e v. git_create_and_push_tag env v w = (Inl e, w') \<Longrightarrow> P (Uncaught e, w')"
    and "\<And>w w' v. git_create_and_push_tag env v w = (Inr False, w') \<Longrightarrow> P (Return 1, w')"
    and "\<And>w w' v. git_create_and_push_tag env v w = (Inr True, w') \<Longrightarrow> P (Return 0, w')"
  shows "P (main lim env file inp)"
proof -
  have prodI: "P (case x of (a, b) \<Rightarrow> f a b)" if "\<And>a b. x = (a, b) \<Longrightarrow> P (f a b)"
    for x :: "'a \<times> 'b" and f
    using that by (cases x) simp
  have sumI: "P (case x of Inl e \<Rightarrow> f e | Inr y \<Rightarrow> g y)"
    if "\<And>e. x = Inl e \<Longrightarrow> P (f e)" and "\<And>y. x = Inr y \<Longrightarrow> P (g y)"
    for x :: "'a + 'b" and f g
    using that by (cases x) simp_all
  have ifI: "P (if c then a else b)" if "c \<Longrightarrow> P a" and "\<not> c \<Longrightarrow> P b" for c a b
    using that by simp
  show ?thesis
    unfolding main_def Let_def
    by (intro prodI sumI ifI) (auto intro: assms)
qed

subsection \<open>What the steps record\<close>

lemma after_update_append:
  "after_update p (tr @ es) =
     (case after_update p tr of
        Some (j, xs) \<Rightarrow> Some (j, xs @ es)
      | None \<Rightarrow> after_update p es)"
  by (induction tr) (auto split: event.splits)

lemma quiet_simps [simp]:
  "quiet []"
  "quiet (Exists p b # es) = quiet es"
  "quiet (Input prompt reply # es) = quiet es"
  "quiet (Run cmd r # es) = quiet es"
  "quiet (Load p l # es) = quiet es"
  "quiet (Dump p j (Some e) # es) = quiet es"
  by (simp_all add: quiet_def)

lemma quiet_append [simp]: "quiet (xs @ ys) = (quiet xs \<and> quiet ys)"
proof -
  have "after_update p (xs @ ys) = None \<longleftrightarrow> after_update p xs = None \<and> after_update p ys = None"
    for p
    by (cases "after_update p xs") (auto simp: after_update_append)
  then show ?thesis
    by (auto simp: quiet_def)
qed

lemma quiet_inputs [simp]: "quiet (map (Input prompt) replies)"
  by (induction replies) simp_all

lemma exists_file_frame:
  "exists_file env p w = (b, w') \<Longrightarrow> \<exists>es. trace w' = trace w @ es \<and> quiet es"
  by (auto simp: exists_file_def Let_def)

lemma input_frame:
  "input prompt w = (r, w') \<Longrightarrow> \<exists>es. trace w' = trace w @ es \<and> quiet es"
  by (auto simp: input_def split: list.splits)

lemma confirm_action_frame:
  "confirm_action prompt w = (r, w') \<Longrightarrow> \<exists>es. trace w' = trace w @ es \<and> quiet es"
  by (auto simp: confirm_action_def split: prod.splits sum.splits dest!: input_frame)

lemma run_command_frame:
  "run_command env cmd w = (r, w') \<Longrightarrow> \<exists>es. trace w' = trace w @ es \<and> quiet es"
  by (auto simp: run_command_eq)

lemma commit_pending_changes_frame:
  "commit_pending_changes env w = (r, w') \<Longrightarrow> \<exists>es. trace w' = trace w @ es \<and> quiet es"
  by (auto simp: commit_pending_changes_def run_command_eq Let_def
      split: prod.splits sum.splits if_splits dest!: input_frame)

lemma check_git_status_frame:
  "check_git_status env w = (r, w') \<Longrightarrow> \<exists>es. trace w' = trace w @ es \<and> quiet es"
  by (auto simp: check_git_status_def run_command_eq
      split: prod.splits sum.splits if_splits
      dest!: confirm_action_frame commit_pending_changes_frame)

lemma check_git_remote_frame:
  "check_git_remote env w = (r, w') \<Longrightarrow> \<exists>es. trace w' = trace w @ es \<and> quiet es"
  by (auto simp: check_git_remote_def run_command_eq split: if_splits)

lemma read_current_version_frame:
  "read_current_version lim env p w = (r, w') \<Longrightarrow> \<exists>es. trace w' = trace w @ es \<and> quiet es"
  by (auto simp: read_current_version_def get_current_version_def Let_def)

lemma ask_version_increment_frame:
  "ask_version_increment w = (r, w') \<Longrightarrow> \<exists>es. trace w' = trace w @ es \<and> quiet es"
  by (auto dest!: ask_version_increment_trace)

lemma git_create_and_push_tag_frame:
  "git_create_and_push_tag env v w = (r, w') \<Longrightarrow> \<exists>es. trace w' = trace w @ es \<and> quiet es"
  by (auto simp: git_create_and_push_tag_def run_command_eq Let_def
      split: prod.splits sum.splits if_splits dest!: confirm_action_frame)

lemma json_version_setitem:
  "setitem data ''version'' (JStr v) = Inr j \<Longrightarrow> json_version j = Some v"
  by (auto simp: setitem_def json_version_def update_conv' split: json.splits)

lemma update_json_version_frame:
  "update_json_version env q v w = (ok, w') \<Longrightarrow>
     \<exists>es. trace w' = trace w @ es \<and>
       (if ok then \<exists>j. json_version j = Some v \<and>
                    (\<forall>p. after_update p es = (if p = q then Some (j, []) else None))
        else quiet es)"
  by (auto simp: update_json_version_def Let_def and_then_def
      split: sum.splits dest: json_version_setitem)

lemma git_add_and_commit_frame:
  "git_add_and_commit env files v w = (ok, w') \<Longrightarrow>
     \<exists>added. (\<not> succeeded added \<and> \<not> ok \<and> trace w' = trace w @ [Run ([''git'', ''add''] @ files) added])
      \<or> (\<exists>committed. succeeded added \<and> ok = succeeded committed \<and>
            trace w' = trace w @ [Run ([''git'', ''add''] @ files) added,
              Run [''git'', ''commit'', ''-m'', ''chore: release v'' @ v] committed])"
  by (auto simp: git_add_and_commit_def run_command_eq split: if_splits)

lemma package_json_neq_tauri_conf: "package_json_of file \<noteq> tauri_conf_of file"
proof
  assume "package_json_of file = tauri_conf_of file"
  then have "length (names (package_json_of file)) = length (names (tauri_conf_of file))"
    by simp
  then show False
    by (simp add: package_json_of_def tauri_conf_of_def joinpath_def)
qed

lemma talk_simps [simp]:
  "talk (Exists p b)" "talk (Input prompt reply)" "talk (Run cmd r)"
  "\<not> talk (Load p l)" "\<not> talk (Dump p j d)"
  by (simp_all add: talk_def)

lemma exists_file_last:
  "exists_file env p w = (b, w') \<Longrightarrow> trace w' \<noteq> [] \<and> talk (last (trace w'))"
  by (auto simp: exists_file_def Let_def)

lemma confirm_action_last:
  "confirm_action prompt w = (r, w') \<Longrightarrow> trace w' \<noteq> [] \<and> talk (last (trace w'))"
  by (auto simp: confirm_action_def input_def split: list.splits)

lemma commit_pending_changes_last:
  "commit_pending_changes env w = (r, w') \<Longrightarrow> trace w' \<noteq> [] \<and> talk (last (trace w'))"
  by (auto simp: commit_pending_changes_def run_command_eq input_def Let_def
      split: list.splits if_splits)

lemma check_git_status_last:
  "check_git_status env w = (r, w') \<Longrightarrow> trace w' \<noteq> [] \<and> talk (last (trace w'))"
  by (auto simp: check_git_status_def run_command_eq
      split: prod.splits sum.splits if_splits
      dest!: confirm_action_last commit_pending_changes_last)

lemma check_git_remote_last:
  "check_git_remote env w = (r, w') \<Longrightarrow> trace w' \<noteq> [] \<and> talk (last (trace w'))"
  by (auto simp: check_git_remote_def run_command_eq split: if_splits)

lemma ask_version_increment_last:
  "ask_version_increment w = (r, w') \<Longrightarrow> trace w' \<noteq> [] \<and> talk (last (trace w'))"
proof -
  assume "ask_version_increment w = (r, w')"
  then obtain replies where "replies \<noteq> []"
    and tr: "trace w' = trace w @ map (Input choice_prompt) replies"
    by (auto dest: ask_version_increment_trace)
  then obtain rs reply where "replies = rs @ [reply]"
    by (cases replies rule: rev_cases) auto
  with tr have "trace w' = (trace w @ map (Input choice_prompt) rs) @ [Input choice_prompt reply]"
    by simp
  then show ?thesis
    by (simp del: append_assoc)
qed

lemma git_add_and_commit_last:
  "git_add_and_commit env files v w = (ok, w') \<Longrightarrow> trace w' \<noteq> [] \<and> talk (last (trace w'))"
  by (auto simp: git_add_and_commit_def run_command_eq split: if_splits)

lemma git_create_and_push_tag_last:
  "git_create_and_push_tag env v w = (r, w') \<Longrightarrow> trace w' \<noteq> [] \<and> talk (last (trace w'))"
  by (auto simp: git_create_and_push_tag_def run_command_eq Let_def confirm_action_def input_def
      split: if_splits list.splits)

lemma update_json_version_last:
  "update_json_version env p v w = (False, w') \<Longrightarrow>
     trace w' \<noteq> [] \<and> (\<forall>q items. last (trace w') \<noteq> Load q (Inr (JObj items)))"
  by (auto simp: update_json_version_def Let_def and_then_def setitem_def
      split: sum.splits json.splits)

lemma parse_version_default: "parse_version lim ''0.0.0'' = Inr (0, 0, 0)"
proof -
  have "digits10 0 = ''0''"
    by (simp add: digits10.simps)
  moreover have "\<not> exceeds_limit lim (length (digits10 0))"
    by (auto simp: digits10.simps exceeds_limit_def)
  ultimately show ?thesis
    using parse_version_canonical [of lim 0 0 0 0] by simp
qed

lemma read_current_version_object:
  assumes "json_load env (clock w) p = Inr (JObj items)"
  shows "(map_of items ''version'' = None \<longrightarrow>
            fst (get_current_version env p w) = Inr (JStr ''0.0.0'')
          \<and> fst (read_current_version lim env p w) = Inr (JStr ''0.0.0'', 0, 0, 0))
       \<and> (\<forall>e. fst (read_current_version lim env p w) = Inl e \<longrightarrow>
            (\<exists>v. map_of items ''version'' = Some v \<and> parse_version_of lim v = Inl e))"
  using assms
  by (auto simp: read_current_version_def get_current_version_def Let_def and_then_def
      parse_version_of_def parse_version_default split: option.splits sum.splits)

lemma read_current_version_last:
  "read_current_version lim env p w = (r, w') \<Longrightarrow>
     trace w' = trace w @ [Load p (json_load env (clock w) p)]"
  by (auto simp: read_current_version_def get_current_version_def Let_def)

subsection \<open>Sample runs, evaluated\<close>

lemmas run_defs =
  main_def Let_def exists_file_def script_def package_json_of_def
  tauri_conf_of_def parent_def joinpath_def str_path_def check_git_status_def
  check_git_remote_def commit_pending_changes_def run_command_def record_event_def
  py_strip_def py_isspace_def
  read_current_version_def get_current_version_def and_then_def parse_version_of_def
  parse_version_def py_lstrip_def getitem_def py_int_def int_isspace_def int_literal_def
  is_digit_def digits_value_def digit_val_def exceeds_limit_def
  ask_version_increment.simps input_def calculate_new_version_def format_version_def
  py_str_def digits10.simps confirm_action_def py_lower_def py_lower_char_def
  update_json_version_def setitem_def git_add_and_commit_def git_create_and_push_tag_def
  start_def

lemma run_clean:
  "main 4300 env_clean script [''2'', ''y''] =
     (Return 0, \<lparr>stdin = [], clock = 16, trace =
        [Exists (package_json_of script) True, Exists (tauri_conf_of script) True,
         Run [''git'', ''status'', ''--porcelain''] (Completed 0 [] []),
         Run [''git'', ''remote'', ''-v'']
           (Completed 0 ''origin git@example.org:hivecad.git (fetch)'' []),
         Load (package_json_of script)
           (Inr (JObj [(''name'', JStr ''hivecad''), (''version'', JStr ''1.2.3'')])),
         Input choice_prompt (Some ''2''),
         Input (confirm_prompt (release_question ''1.3.0'')) (Some ''y''),
         Load (package_json_of script)
           (Inr (JObj [(''name'', JStr ''hivecad''), (''version'', JStr ''1.2.3'')])),
         Dump (package_json_of script)
           (JObj [(''name'', JStr ''hivecad''), (''version'', JStr ''1.3.0'')]) None,
         Load (tauri_conf_of script)
           (Inr (JObj [(''name'', JStr ''hivecad''), (''version'', JStr ''1.2.3'')])),
         Dump (tauri_conf_of script)
           (JObj [(''name'', JStr ''hivecad''), (''version'', JStr ''1.3.0'')]) None,
         Run [''git'', ''add'', ''/repo/package.json'', ''/repo/src-tauri/tauri.conf.json'']
           (Completed 0 [] []),
         Run [''git'', ''commit'', ''-m'', ''chore: release v1.3.0''] (Completed 0 [] []),
         Run [''git'', ''tag'', ''-l'', ''v1.3.0''] (Completed 0 [] []),
         Run [''git'', ''tag'', ''v1.3.0''] (Completed 0 [] []),
         Run [''git'', ''push'', ''origin'', ''v1.3.0''] (Completed 0 [] [])]\<rparr>)"
  by (simp add: run_defs env_clean_def)

lemma run_no_tauri:
  "main 4300 env_no_tauri script [''2'', ''y''] =
     (Return 1, \<lparr>stdin = [''2'', ''y''], clock = 2, trace =
        [Exists (package_json_of script) True, Exists (tauri_conf_of script) False]\<rparr>)"
  by (simp add: run_defs env_no_tauri_def env_clean_def)

lemma run_dirty:
  "main 4300 env_dirty script [''n'', ''n''] =
     (Return 1, \<lparr>stdin = [], clock = 5, trace =
        [Exists (package_json_of script) True, Exists (tauri_conf_of script) True,
         Run [''git'', ''status'', ''--porcelain''] (Completed 0 '' M src/App.tsx'' []),
         Input (confirm_prompt ''Would you like to commit these changes?'') (Some ''n''),
         Input (confirm_prompt ''Continue without committing?'') (Some ''n'')]\<rparr>)"
  by (simp add: run_defs env_dirty_def env_clean_def)

lemma run_array:
  "main 4300 env_array script [''0'', ''y''] =
     (Return 1, \<lparr>stdin = [''0'', ''y''], clock = 5, trace =
        [Exists (package_json_of script) True, Exists (tauri_conf_of script) True,
         Run [''git'', ''status'', ''--porcelain''] (Completed 0 [] []),
         Run [''git'', ''remote'', ''-v'']
           (Completed 0 ''origin git@example.org:hivecad.git (fetch)'' []),
         Load (package_json_of script) (Inr (JArr []))]\<rparr>)"
  by (simp add: run_defs env_array_def env_clean_def)

lemma run_tagged:
  "git_create_and_push_tag env_tagged ''1.3.0'' (start [''y'']) =
    (Inr True, \<lparr>stdin = [], clock = 6, trace =
     [Run [''git'', ''tag'', ''-l'', ''v1.3.0''] (Completed 0 ''v1.3.0'' []),
      Input (confirm_prompt ''Do you want to delete and recreate it?'') (Some ''y''),
      Run [''git'', ''tag'', ''-d'', ''v1.3.0''] (Completed 0 [] []),
      Run [''git'', ''push'', ''origin'', '':refs/tags/v1.3.0''] (Completed 0 [] []),
      Run [''git'', ''tag'', ''v1.3.0''] (Completed 0 [] []),
      Run [''git'', ''push'', ''origin'', ''v1.3.0''] (Completed 0 [] [])]\<rparr>)"
  by (simp add: run_defs env_tagged_def env_clean_def)

subsection \<open>Exit codes\<close>

text \<open>
  C6, as the specification states it, fails: the answer no to
  \<^verbatim>\<open>Continue without committing?\<close> is a decline at a confirmation, and the run ends with
  exit code 1.
\<close>

theorem main_decline_exit_counterexample:
  "exit_code (fst (main 4300 env_dirty script [''n'', ''n''])) = 1
   \<and> last (trace (snd (main 4300 env_dirty script [''n'', ''n''])))
       = Input (confirm_prompt ''Continue without committing?'') (Some ''n'')"
  by (simp add: run_dirty exit_code_def)

text \<open>
  C6, amended. The exit code is 0 exactly when the run ends with the pushed tag or with
  the final confirmation (\<^verbatim>\<open>Proceed with releasing v...\<close>) declined; in every other case
  it is 1: a failed check or command that ends the run, a decline at one of the other two
  confirmations, an exception that nothing catches.
\<close>

theorem main_exit_code:
  "exit_code (fst (main lim env file inp)) =
     (if ends_clean (trace (snd (main lim env file inp))) then 0 else 1)"
proof -
  let ?P = "\<lambda>rw. exit_code (fst rw) = (if ends_clean (trace (snd rw)) then 0 else 1)"
  have "?P (main lim env file inp)"
  proof (rule main_rule)
  qed (auto simp: exit_code_def exists_file_def Let_def
        dest!: check_git_status_end check_git_remote_end read_current_version_end
        ask_version_increment_end confirm_action_end update_json_version_end
        git_add_and_commit_end git_create_and_push_tag_end)
  then show ?thesis .
qed

theorem main_exit_code_witness:
  "ends_clean (trace (snd (main 4300 env_clean script [''2'', ''y''])))
   \<and> exit_code (fst (main 4300 env_clean script [''2'', ''y''])) = 0
   \<and> \<not> ends_clean (trace (snd (main 4300 env_no_tauri script [''2'', ''y''])))
   \<and> exit_code (fst (main 4300 env_no_tauri script [''2'', ''y''])) = 1"
proof -
  have "ends_clean (trace (snd (main 4300 env_clean script [''2'', ''y''])))"
    by (simp add: run_clean ends_clean_def tag_pushed_def succeeded_def)
  moreover have "\<not> ends_clean (trace (snd (main 4300 env_no_tauri script [''2'', ''y''])))"
    by (simp add: run_no_tauri ends_clean_def tag_pushed_def release_declined_def)
  ultimately show ?thesis
    using main_exit_code [of 4300 env_clean script "[''2'', ''y'']"]
      main_exit_code [of 4300 env_no_tauri script "[''2'', ''y'']"]
    by simp
qed

subsection \<open>Missing files\<close>

text \<open>
  C7. If one of the two metadata files is missing at the start, the run ends with exit
  code 1, and all it has done is to test for files: no prompt, no command, no file read
  or written.
\<close>

theorem main_missing_file:
  assumes "\<not> path_exists env (package_json_of file) \<or> \<not> path_exists env (tauri_conf_of file)"
  shows "fst (main lim env file inp) = Return 1
       \<and> exit_code (fst (main lim env file inp)) = 1
       \<and> list_all is_file_test (trace (snd (main lim env file inp)))"
  using assms
  by (auto simp: main_def exists_file_def Let_def is_file_test_def exit_code_def)

theorem main_missing_file_witness:
  "\<not> path_exists env_no_tauri (tauri_conf_of script)
   \<and> fst (main 4300 env_no_tauri script [''2'', ''y'']) = Return 1
   \<and> list_all is_file_test (trace (snd (main 4300 env_no_tauri script [''2'', ''y''])))"
proof -
  have h: "\<not> path_exists env_no_tauri (tauri_conf_of script)"
    by (simp add: env_no_tauri_def)
  then show ?thesis
    using main_missing_file [of env_no_tauri script 4300 "[''2'', ''y'']"] by blast
qed

subsection \<open>The tag\<close>

text \<open>
  C8. The step that makes the tag \<^verbatim>\<open>v{version}\<close> records, after what was recorded before,
  events that follow the steps of the specification: the tag is looked up; if it exists
  the user is asked, a decline ends the step with \<^verbatim>\<open>False\<close>, on yes the local tag is
  deleted (a failure ends the step with \<^verbatim>\<open>False\<close>) and the deletion on the remote is
  tried, whatever its result; then the tag is created and pushed, and a failure of
  either gives \<^verbatim>\<open>False\<close>.
\<close>

theorem git_create_and_push_tag_protocol:
  "\<exists>evs. trace (snd (git_create_and_push_tag env version w)) = trace w @ evs
       \<and> tag_protocol (''v'' @ version) evs (fst (git_create_and_push_tag env version w))"
  by (auto simp: git_create_and_push_tag_def run_command_eq Let_def confirm_action_def input_def
       tag_exists_def succeeded_def says_yes_def
      split: list.splits proc_result.splits)

theorem git_create_and_push_tag_protocol_witness:
  "tag_protocol ''v1.3.0''
     [Run [''git'', ''tag'', ''-l'', ''v1.3.0''] (Completed 0 ''v1.3.0'' []),
      Input (confirm_prompt ''Do you want to delete and recreate it?'') (Some ''y''),
      Run [''git'', ''tag'', ''-d'', ''v1.3.0''] (Completed 0 [] []),
      Run [''git'', ''push'', ''origin'', '':refs/tags/v1.3.0''] (Completed 0 [] []),
      Run [''git'', ''tag'', ''v1.3.0''] (Completed 0 [] []),
      Run [''git'', ''push'', ''origin'', ''v1.3.0''] (Completed 0 [] [])]
     (Inr True)"
proof -
  show ?thesis
    using git_create_and_push_tag_protocol [of env_tagged "''1.3.0''" "start [''y'']"]
    unfolding run_tagged by (simp add: start_def)
qed

subsection \<open>The commit\<close>

text \<open>
  C9. When a run has written the second metadata file, the file holds a version, the
  first metadata file was written with the same version, and what the run does next is
  \<^verbatim>\<open>git add\<close> with exactly the two files and then \<^verbatim>\<open>git commit -m\<close> with the message
  \<^verbatim>\<open>chore: release v{version}\<close>; if either command fails it is the last thing the run
  does, and the run returns 1.
\<close>

theorem main_commits_release:
  assumes "after_update (tauri_conf_of file) (trace (snd (main lim env file inp))) = Some (written, evs)"
  shows "\<exists>version. json_version written = Some version \<and>
           (\<exists>written' evs'. after_update (package_json_of file) (trace (snd (main lim env file inp)))
               = Some (written', evs') \<and> json_version written' = Some version) \<and>
           commit_protocol [str_path (package_json_of file), str_path (tauri_conf_of file)]
             version evs (fst (main lim env file inp))"
proof -
  define P where "P rw \<longleftrightarrow>
    (\<forall>written evs. after_update (tauri_conf_of file) (trace (snd rw)) = Some (written, evs) \<longrightarrow>
      (\<exists>version. json_version written = Some version \<and>
           (\<exists>written' evs'. after_update (package_json_of file) (trace (snd rw))
               = Some (written', evs') \<and> json_version written' = Some version) \<and>
           commit_protocol [str_path (package_json_of file), str_path (tauri_conf_of file)]
             version evs (fst rw)))" for rw :: "outcome \<times> world"
  have prodI: "P (case x of (a, b) \<Rightarrow> f a b)" if "\<And>a b. x = (a, b) \<Longrightarrow> P (f a b)"
    for x :: "'a \<times> 'b" and f
    using that by (cases x) simp
  have sumI: "P (case x of Inl e \<Rightarrow> f e | Inr y \<Rightarrow> g y)"
    if "\<And>e. x = Inl e \<Longrightarrow> P (f e)" and "\<And>y. x = Inr y \<Longrightarrow> P (g y)"
    for x :: "'a + 'b" and f g
    using that by (cases x) simp_all
  have ifI: "P (if c then a else b)" if "c \<Longrightarrow> P a" and "\<not> c \<Longrightarrow> P b" for c a b
    using that by simp
  have neq: "tauri_conf_of file \<noteq> package_json_of file"
    using package_json_neq_tauri_conf by (rule not_sym)
  have "P (main lim env file inp)"
    unfolding main_def Let_def
    apply (intro prodI sumI ifI)
    unfolding P_def
                    apply (auto simp: after_update_append neq quiet_def
        dest!: exists_file_frame check_git_status_frame check_git_remote_frame
          read_current_version_frame ask_version_increment_frame confirm_action_frame
          update_json_version_frame git_add_and_commit_frame git_create_and_push_tag_frame)
    done
  with assms show ?thesis
    unfolding P_def by blast
qed

theorem main_commits_release_witness:
  "after_update (tauri_conf_of script) (trace (snd (main 4300 env_clean script [''2'', ''y''])))
     = Some (JObj [(''name'', JStr ''hivecad''), (''version'', JStr ''1.3.0'')],
         [Run [''git'', ''add'', ''/repo/package.json'', ''/repo/src-tauri/tauri.conf.json'']
            (Completed 0 [] []),
          Run [''git'', ''commit'', ''-m'', ''chore: release v1.3.0''] (Completed 0 [] []),
          Run [''git'', ''tag'', ''-l'', ''v1.3.0''] (Completed 0 [] []),
          Run [''git'', ''tag'', ''v1.3.0''] (Completed 0 [] []),
          Run [''git'', ''push'', ''origin'', ''v1.3.0''] (Completed 0 [] [])])
   \<and> commit_protocol [''/repo/package.json'', ''/repo/src-tauri/tauri.conf.json''] ''1.3.0''
         [Run [''git'', ''add'', ''/repo/package.json'', ''/repo/src-tauri/tauri.conf.json'']
            (Completed 0 [] []),
          Run [''git'', ''commit'', ''-m'', ''chore: release v1.3.0''] (Completed 0 [] []),
          Run [''git'', ''tag'', ''-l'', ''v1.3.0''] (Completed 0 [] []),
          Run [''git'', ''tag'', ''v1.3.0''] (Completed 0 [] []),
          Run [''git'', ''push'', ''origin'', ''v1.3.0''] (Completed 0 [] [])]
         (Return 0)"
proof -
  have h: "after_update (tauri_conf_of script) (trace (snd (main 4300 env_clean script [''2'', ''y''])))
     = Some (JObj [(''name'', JStr ''hivecad''), (''version'', JStr ''1.3.0'')],
         [Run [''git'', ''add'', ''/repo/package.json'', ''/repo/src-tauri/tauri.conf.json'']
            (Completed 0 [] []),
          Run [''git'', ''commit'', ''-m'', ''chore: release v1.3.0''] (Completed 0 [] []),
          Run [''git'', ''tag'', ''-l'', ''v1.3.0''] (Completed 0 [] []),
          Run [''git'', ''tag'', ''v1.3.0''] (Completed 0 [] []),
          Run [''git'', ''push'', ''origin'', ''v1.3.0''] (Completed 0 [] [])])"
    using package_json_neq_tauri_conf by (simp add: run_clean)
  have r: "fst (main 4300 env_clean script [''2'', ''y'']) = Return 0"
    by (simp add: run_clean)
  have v: "json_version (JObj [(''name'', JStr ''hivecad''), (''version'', JStr ''1.3.0'')]) = Some ''1.3.0''"
    by (simp add: json_version_def)
  have p: "str_path (package_json_of script) = ''/repo/package.json''"
    "str_path (tauri_conf_of script) = ''/repo/src-tauri/tauri.conf.json''"
    by (simp_all add: run_defs)
  show ?thesis
    using h main_commits_release [OF h] unfolding r v p by simp
qed

subsection \<open>The version that is read\<close>

text \<open>
  C10, as stated, fails for a file that is JSON but not an object: a JSON array has no
  field \<^verbatim>\<open>version\<close>, \<^verbatim>\<open>data.get\<close> raises \<^verbatim>\<open>AttributeError\<close>, and the run ends with exit
  code 1 right after reading the file.
\<close>

theorem missing_version_array_counterexample:
  "json_load env_array 4 (package_json_of script) = Inr (JArr [])
   \<and> fst (get_current_version env_array (package_json_of script) (start []))
       = Inl AttributeError
   \<and> main 4300 env_array script [''0'', ''y''] =
       (Return 1, \<lparr>stdin = [''0'', ''y''], clock = 5, trace =
          [Exists (package_json_of script) True, Exists (tauri_conf_of script) True,
           Run [''git'', ''status'', ''--porcelain''] (Completed 0 [] []),
           Run [''git'', ''remote'', ''-v'']
             (Completed 0 ''origin git@example.org:hivecad.git (fetch)'' []),
           Load (package_json_of script) (Inr (JArr []))]\<rparr>)"
  by (simp add: run_array) (simp add: run_defs env_array_def env_clean_def)

text \<open>
  C10, amended. If \<^verbatim>\<open>package.json\<close> is read as a JSON object without the key
  \<^verbatim>\<open>version\<close>, \<^verbatim>\<open>get_current_version\<close> returns \<^verbatim>\<open>0.0.0\<close> and the \<^verbatim>\<open>try\<close> block of \<^verbatim>\<open>main\<close>
  completes with the version (0, 0, 0); if the file is read as a JSON object and the
  block fails, the key is there and its value is what \<^verbatim>\<open>parse_version\<close> rejects. For
  the whole run: a run whose last event is the reading of a JSON object has stopped at
  the version, and then the key is there with a value that \<^verbatim>\<open>parse_version\<close> rejects.
\<close>

theorem missing_version_defaults:
  "(json_load env (clock w) p = Inr (JObj items) \<longrightarrow>
      (map_of items ''version'' = None \<longrightarrow>
         fst (get_current_version env p w) = Inr (JStr ''0.0.0'')
       \<and> fst (read_current_version lim env p w) = Inr (JStr ''0.0.0'', 0, 0, 0))
    \<and> (\<forall>e. fst (read_current_version lim env p w) = Inl e \<longrightarrow>
          (\<exists>v. map_of items ''version'' = Some v \<and> parse_version_of lim v = Inl e)))
   \<and> trace (snd (main lim env file inp)) \<noteq> []
   \<and> (\<forall>q loaded. last (trace (snd (main lim env file inp))) = Load q (Inr (JObj loaded)) \<longrightarrow>
          (\<exists>v e. map_of loaded ''version'' = Some v \<and> parse_version_of lim v = Inl e))"
proof -
  let ?P = "\<lambda>rw :: outcome \<times> world. trace (snd rw) \<noteq> []
   \<and> (\<forall>q loaded. last (trace (snd rw)) = Load q (Inr (JObj loaded)) \<longrightarrow>
          (\<exists>v e. map_of loaded ''version'' = Some v \<and> parse_version_of lim v = Inl e))"
  have stop: "?P (Return 1, w')"
    if "read_current_version lim env (package_json_of file) w = (Inl e, w')" for w w' e
  proof -
    from that have tr: "trace w' = trace w @ [Load (package_json_of file)
        (json_load env (clock w) (package_json_of file))]"
      by (rule read_current_version_last)
    from that have "fst (read_current_version lim env (package_json_of file) w) = Inl e"
      by simp
    then show ?thesis
      using tr read_current_version_object [of env w "package_json_of file" _ lim]
      by auto
  qed
  have "?P (main lim env file inp)"
  proof (rule main_rule)
  qed (use stop in \<open>auto dest!: exists_file_last check_git_status_last check_git_remote_last
        ask_version_increment_last confirm_action_last update_json_version_last
        git_add_and_commit_last git_create_and_push_tag_last\<close>)
  then show ?thesis
    using read_current_version_object [of env w p items lim] by blast
qed

theorem missing_version_defaults_witness:
  "json_load env_unversioned 0 (package_json_of script) = Inr (JObj [(''name'', JStr ''hivecad'')])
   \<and> map_of [(''name'', JStr ''hivecad'')] ''version'' = None
   \<and> fst (get_current_version env_unversioned (package_json_of script) (start []))
       = Inr (JStr ''0.0.0'')
   \<and> fst (read_current_version 4300 env_unversioned (package_json_of script) (start []))
       = Inr (JStr ''0.0.0'', 0, 0, 0)"
proof -
  have l: "json_load env_unversioned (clock (start [])) (package_json_of script)
      = Inr (JObj [(''name'', JStr ''hivecad'')])"
    by (simp add: env_unversioned_def env_clean_def)
  have m: "map_of [(''name'', JStr ''hivecad'')] ''version'' = None"
    by simp
  show ?thesis
    using l m missing_version_defaults [of env_unversioned "start []" "package_json_of script"
        "[(''name'', JStr ''hivecad'')]" 4300 script "[]"]
    by (simp add: start_def)
qed

end
